theory Spec2Isabelle
  imports Main "HOL-Library.AList"
begin

section \<open>The Python values the Bus class handles\<close>

text \<open>
  The module \<^verbatim>\<open>src/cocotb_bus/bus.py\<close> holds one class, \<^verbatim>\<open>Bus\<close>. It looks simulator
  handles up on an entity by name, stores them on itself, and reads and writes their
  \<^verbatim>\<open>value\<close>.

  A simulator handle is owned by the simulator. What the class uses of it is: its
  \<^verbatim>\<open>_name\<close>, attribute lookup (\<^verbatim>\<open>hasattr\<close>/\<^verbatim>\<open>getattr\<close>), \<^verbatim>\<open>dir\<close>, indexing, a logger and
  the \<^verbatim>\<open>value\<close> property. A handle is modelled by exactly these: \<open>h_attrs\<close> is what
  attribute lookup finds, \<open>h_dir\<close> is what \<^verbatim>\<open>dir\<close> lists (the two are independent: a
  simulator may resolve names it does not list), \<open>h_items\<close> is what indexing finds,
  and \<open>h_id\<close> is the address of the signal's value in the simulator's store. Every
  handle has a logger.
\<close>

datatype handle =
  Handle (h_name: string) (h_id: nat) (h_attrs: "(string \<times> handle) list")
    (h_dir: "string list") (h_items: "(int \<times> handle) list")

text \<open>
  Python values: \<open>PBin ty bits\<close> is a value of class \<open>ty\<close> that has the methods
  \<^verbatim>\<open>get_binstr\<close> and \<^verbatim>\<open>set_binstr\<close> and currently holds \<open>bits\<close>; \<open>PInt\<close> and \<open>PStr\<close> are
  plain values without these methods; \<open>PMethod n\<close> is the method \<open>n\<close> of an object's
  class, \<open>PDict\<close> a dictionary in insertion order.
\<close>

datatype pyval =
  PNone
  | PStr string
  | PInt int
  | PBin string string
  | PHdl handle
  | PDict "(string \<times> pyval) list"
  | PMethod string

datatype error =
  AttributeError string
  | TypeError string
  | RuntimeError string
  | IndexError string

text \<open>
  An instance of a Python class: the name of its class, the names its class defines
  (methods), and its instance dictionary. An instance attribute hides a method of the
  same name. Attribute names are ordinary identifiers; the slots the interpreter itself
  guards (\<^verbatim>\<open>__class__\<close>, \<^verbatim>\<open>__dict__\<close>) are outside the model.
\<close>

record pyobj =
  o_qualname :: string
  o_members :: "string list"
  o_attrs :: "(string \<times> pyval) list"

definition hasattr :: "pyobj \<Rightarrow> string \<Rightarrow> bool" where
  "hasattr obj a = (map_of (o_attrs obj) a \<noteq> None \<or> a \<in> set (o_members obj))"

definition getattr :: "pyobj \<Rightarrow> string \<Rightarrow> error + pyval" where
  "getattr obj a =
     (case map_of (o_attrs obj) a of
        Some v \<Rightarrow> Inr v
      | None \<Rightarrow>
          if a \<in> set (o_members obj) then Inr (PMethod a)
          else Inl (AttributeError (o_qualname obj @ '' object has no attribute '' @ a)))"

definition setattr :: "pyobj \<Rightarrow> string \<Rightarrow> pyval \<Rightarrow> pyobj" where
  "setattr obj a v = obj\<lparr>o_attrs := AList.update a v (o_attrs obj)\<rparr>"

subsection \<open>Attribute lookup on a handle\<close>

definition handle_hasattr :: "handle \<Rightarrow> string \<Rightarrow> bool" where
  "handle_hasattr h a = (map_of (h_attrs h) a \<noteq> None)"

text \<open>The message of a failed lookup is the simulator layer's; it names the handle and
  the name that was looked up.\<close>

definition handle_getattr :: "handle \<Rightarrow> string \<Rightarrow> error + handle" where
  "handle_getattr h a =
     (case map_of (h_attrs h) a of
        Some s \<Rightarrow> Inr s
      | None \<Rightarrow> Inl (AttributeError (h_name h @ '' contains no object named '' @ a)))"

text \<open>\<^verbatim>\<open>handle[array_idx]\<close>: \<^verbatim>\<open>None\<close> cannot be indexed; a handle yields its item or fails.\<close>

definition index_handle :: "handle option \<Rightarrow> int \<Rightarrow> error + handle option" where
  "index_handle ho i =
     (case ho of
        None \<Rightarrow> Inl (TypeError ''NoneType object is not subscriptable'')
      | Some h \<Rightarrow>
          (case map_of (h_items h) i of
             Some s \<Rightarrow> Inr (Some s)
           | None \<Rightarrow> Inl (IndexError (h_name h))))"

subsection \<open>Case conversion of names\<close>

text \<open>HDL identifiers are ASCII: \<^verbatim>\<open>upper\<close>, \<^verbatim>\<open>lower\<close> and \<^verbatim>\<open>casefold\<close> act on the letters
  a-z and A-Z and leave every other character alone; \<^verbatim>\<open>casefold\<close> is \<^verbatim>\<open>lower\<close> there.\<close>

definition upper_char :: "char \<Rightarrow> char" where
  "upper_char c =
     (let n = (of_char c :: nat) in if 97 \<le> n \<and> n \<le> 122 then char_of (n - 32) else c)"

definition lower_char :: "char \<Rightarrow> char" where
  "lower_char c =
     (let n = (of_char c :: nat) in if 65 \<le> n \<and> n \<le> 90 then char_of (n + 32) else c)"

definition upper :: "string \<Rightarrow> string" where
  "upper s = map upper_char s"

definition lower :: "string \<Rightarrow> string" where
  "lower s = map lower_char s"

definition casefold :: "string \<Rightarrow> string" where
  "casefold s = map lower_char s"

section \<open>Name resolution\<close>

text \<open>
  \<^verbatim>\<open>_caseInsensGetattr(obj, attr)\<close>: the first of \<^verbatim>\<open>attr\<close>, \<^verbatim>\<open>attr.upper()\<close>,
  \<^verbatim>\<open>attr.lower()\<close> that \<^verbatim>\<open>hasattr\<close> finds is returned. Otherwise every name of
  \<^verbatim>\<open>dir(obj)\<close> is compared case-folded, and the first match is fetched with \<^verbatim>\<open>getattr\<close>
  (whose failure propagates). With no match the result is \<^verbatim>\<open>None\<close>. The warning issued
  on one simulator before the scan changes no result and is not modelled
  (\<^verbatim>\<open>cocotb.SIM_NAME\<close> is a string whenever a simulator runs).
\<close>

fun try_names :: "handle \<Rightarrow> string list \<Rightarrow> handle option" where
  "try_names obj [] = None"
| "try_names obj (a # as) =
     (if handle_hasattr obj a then map_of (h_attrs obj) a else try_names obj as)"

fun scan_dir :: "handle \<Rightarrow> string \<Rightarrow> string list \<Rightarrow> error + handle option" where
  "scan_dir obj attr [] = Inr None"
| "scan_dir obj attr (a # as) =
     (if casefold a = casefold attr then
        (case handle_getattr obj a of Inl e \<Rightarrow> Inl e | Inr h \<Rightarrow> Inr (Some h))
      else scan_dir obj attr as)"

definition caseInsensGetattr :: "handle \<Rightarrow> string \<Rightarrow> error + handle option" where
  "caseInsensGetattr obj attr =
     (case try_names obj [attr, upper attr, lower attr] of
        Some h \<Rightarrow> Inr (Some h)
      | None \<Rightarrow> scan_dir obj attr (h_dir obj))"

section \<open>Construction of a Bus\<close>

text \<open>The names the class \<^verbatim>\<open>Bus\<close> defines. An instance starts with the three fields
  \<^verbatim>\<open>_entity\<close>, \<^verbatim>\<open>_name\<close> and \<^verbatim>\<open>_signals\<close> in its dictionary.\<close>

definition Bus_members :: "string list" where
  "Bus_members =
     [''__init__'', ''_caseInsensGetattr'', ''_add_signal'', ''drive'', ''capture'',
      ''sample'', ''__le__'']"

definition name_val :: "string option \<Rightarrow> pyval" where
  "name_val name = (case name of None \<Rightarrow> PNone | Some n \<Rightarrow> PStr n)"

definition new_Bus :: "handle \<Rightarrow> string option \<Rightarrow> pyobj" where
  "new_Bus entity name =
     \<lparr>o_qualname = ''Bus'', o_members = Bus_members,
      o_attrs = [(''_entity'', PHdl entity), (''_name'', name_val name),
                 (''_signals'', PDict [])]\<rparr>"

text \<open>\<^verbatim>\<open>self._entity\<close>, used as a handle: anything but a handle has neither a logger nor
  signals.\<close>

definition self_entity :: "pyobj \<Rightarrow> error + handle" where
  "self_entity self =
     (case getattr self ''_entity'' of
        Inl e \<Rightarrow> Inl e
      | Inr v \<Rightarrow>
          (case v of
             PHdl h \<Rightarrow> Inr h
           | _ \<Rightarrow> Inl (AttributeError ''object has no attribute _log'')))"

text \<open>\<^verbatim>\<open>self._entity._log.debug(...)\<close>: writes a log line; fails when \<^verbatim>\<open>self._entity\<close> is
  no handle.\<close>

definition entity_log :: "pyobj \<Rightarrow> error + unit" where
  "entity_log self = (case self_entity self of Inl e \<Rightarrow> Inl e | Inr h \<Rightarrow> Inr ())"

text \<open>\<^verbatim>\<open>self.m(...)\<close> finds \<open>m\<close> on the instance first: a method is callable, a value an
  instance attribute of that name holds is not.\<close>

definition bound_method :: "pyobj \<Rightarrow> string \<Rightarrow> error + unit" where
  "bound_method self m =
     (case getattr self m of
        Inl e \<Rightarrow> Inl e
      | Inr v \<Rightarrow>
          (case v of
             PMethod n \<Rightarrow> Inr ()
           | _ \<Rightarrow> Inl (TypeError ''object is not callable'')))"

definition hval :: "handle option \<Rightarrow> pyval" where
  "hval ho = (case ho of None \<Rightarrow> PNone | Some h \<Rightarrow> PHdl h)"

text \<open>The lookup of \<^verbatim>\<open>_add_signal\<close>: case-insensitive through \<^verbatim>\<open>_caseInsensGetattr\<close>,
  whose \<^verbatim>\<open>None\<close> is passed on, or a plain \<^verbatim>\<open>getattr\<close>, which raises.\<close>

definition resolve :: "pyobj \<Rightarrow> string \<Rightarrow> bool \<Rightarrow> error + handle option" where
  "resolve self signame case_insensitive =
     (if case_insensitive then
        (case bound_method self ''_caseInsensGetattr'' of
           Inl e \<Rightarrow> Inl e
         | Inr _ \<Rightarrow>
             (case self_entity self of
                Inl e \<Rightarrow> Inl e
              | Inr ent \<Rightarrow> caseInsensGetattr ent signame))
      else
        (case self_entity self of
           Inl e \<Rightarrow> Inl e
         | Inr ent \<Rightarrow>
             (case handle_getattr ent signame of
                Inl e \<Rightarrow> Inl e
              | Inr h \<Rightarrow> Inr (Some h))))"

text \<open>\<^verbatim>\<open>self._signals[attr_name] = getattr(self, attr_name)\<close>: the right-hand side is
  read first; the item is stored when \<^verbatim>\<open>self._signals\<close> is still the dictionary, keeping
  the position of a key already there. A handle or \<^verbatim>\<open>None\<close> in its place takes no
  item.\<close>

definition store_signal :: "pyobj \<Rightarrow> string \<Rightarrow> error + pyobj" where
  "store_signal self attr_name =
     (case getattr self attr_name of
        Inl e \<Rightarrow> Inl e
      | Inr v \<Rightarrow>
          (case getattr self ''_signals'' of
             Inl e \<Rightarrow> Inl e
           | Inr d \<Rightarrow>
               (case d of
                  PDict kvs \<Rightarrow>
                    Inr (setattr self ''_signals'' (PDict (AList.update attr_name v kvs)))
                | _ \<Rightarrow> Inl (TypeError ''object does not support item assignment''))))"

definition add_signal ::
  "pyobj \<Rightarrow> string \<Rightarrow> string \<Rightarrow> int option \<Rightarrow> bool \<Rightarrow> error + pyobj" where
  "add_signal self attr_name signame array_idx case_insensitive =
     (case entity_log self of
        Inl e \<Rightarrow> Inl e
      | Inr _ \<Rightarrow>
          (case resolve self signame case_insensitive of
             Inl e \<Rightarrow> Inl e
           | Inr handle \<Rightarrow>
               (case (case array_idx of
                        None \<Rightarrow> Inr handle
                      | Some i \<Rightarrow> index_handle handle i) of
                  Inl e \<Rightarrow> Inl e
                | Inr handle' \<Rightarrow>
                    store_signal (setattr self attr_name (hval handle')) attr_name)))"

text \<open>The \<^verbatim>\<open>signals\<close> argument is a list of names or a dictionary from attribute name to
  signal name (given in its insertion order, keys distinct).\<close>

datatype sigspec = SigList "string list" | SigDict "(string \<times> string) list"

fun build_sig_attr_dict :: "sigspec \<Rightarrow> (string \<times> string) list" where
  "build_sig_attr_dict (SigDict d) = d"
| "build_sig_attr_dict (SigList sigs) = foldl (\<lambda>d sig. AList.update sig sig d) [] sigs"

text \<open>\<^verbatim>\<open>if name: signame = name + bus_separator + sig_name else: signame = sig_name\<close>;
  \<^verbatim>\<open>None\<close> and the empty string are both false.\<close>

definition compose_signame :: "string option \<Rightarrow> string \<Rightarrow> string \<Rightarrow> string" where
  "compose_signame name bus_separator sig_name =
     (case name of
        None \<Rightarrow> sig_name
      | Some n \<Rightarrow> if n \<noteq> [] then n @ bus_separator @ sig_name else sig_name)"

fun add_mandatory ::
  "pyobj \<Rightarrow> string option \<Rightarrow> string \<Rightarrow> int option \<Rightarrow> bool \<Rightarrow> (string \<times> string) list
    \<Rightarrow> error + pyobj" where
  "add_mandatory self name sep array_idx ci [] = Inr self"
| "add_mandatory self name sep array_idx ci ((attr_name, sig_name) # rest) =
     (case bound_method self ''_add_signal'' of
        Inl e \<Rightarrow> Inl e
      | Inr _ \<Rightarrow>
          (case add_signal self attr_name (compose_signame name sep sig_name) array_idx ci of
             Inl e \<Rightarrow> Inl e
           | Inr self' \<Rightarrow> add_mandatory self' name sep array_idx ci rest))"

text \<open>An optional signal is probed on the entity passed to the constructor, always
  case-insensitively, and added only when the probe is not \<^verbatim>\<open>None\<close>.\<close>

fun add_optional ::
  "pyobj \<Rightarrow> handle \<Rightarrow> string option \<Rightarrow> string \<Rightarrow> int option \<Rightarrow> bool
    \<Rightarrow> (string \<times> string) list \<Rightarrow> error + pyobj" where
  "add_optional self entity name sep array_idx ci [] = Inr self"
| "add_optional self entity name sep array_idx ci ((attr_name, sig_name) # rest) =
     (case entity_log self of
        Inl e \<Rightarrow> Inl e
      | Inr _ \<Rightarrow>
          (case bound_method self ''_caseInsensGetattr'' of
             Inl e \<Rightarrow> Inl e
           | Inr _ \<Rightarrow>
               (case caseInsensGetattr entity (compose_signame name sep sig_name) of
                  Inl e \<Rightarrow> Inl e
                | Inr None \<Rightarrow>
                    (case entity_log self of
                       Inl e \<Rightarrow> Inl e
                     | Inr _ \<Rightarrow> add_optional self entity name sep array_idx ci rest)
                | Inr (Some h) \<Rightarrow>
                    (case bound_method self ''_add_signal'' of
                       Inl e \<Rightarrow> Inl e
                     | Inr _ \<Rightarrow>
                         (case add_signal self attr_name (compose_signame name sep sig_name)
                                 array_idx ci of
                            Inl e \<Rightarrow> Inl e
                          | Inr self' \<Rightarrow>
                              add_optional self' entity name sep array_idx ci rest)))))"

text \<open>\<^verbatim>\<open>Bus(entity, name, signals, optional_signals, bus_separator, case_insensitive,
  array_idx)\<close>: the instance, or the exception that left the constructor.\<close>

definition Bus_init ::
  "handle \<Rightarrow> string option \<Rightarrow> sigspec \<Rightarrow> sigspec \<Rightarrow> string \<Rightarrow> bool \<Rightarrow> int option
    \<Rightarrow> error + pyobj" where
  "Bus_init entity name signals optional_signals bus_separator case_insensitive array_idx =
     (case add_mandatory (new_Bus entity name) name bus_separator array_idx case_insensitive
             (build_sig_attr_dict signals) of
        Inl e \<Rightarrow> Inl e
      | Inr self \<Rightarrow>
          add_optional self entity name bus_separator array_idx case_insensitive
            (build_sig_attr_dict optional_signals))"

section \<open>Driving, sampling and capturing\<close>

text \<open>
  The methods work on objects that are shared by reference: the object passed to
  \<^verbatim>\<open>sample\<close> is changed in place, and it may be the Bus itself. So objects live in
  a heap \<open>objs\<close>, addressed by number. A handle's \<^verbatim>\<open>value\<close> belongs to the simulator:
  reading it yields \<open>reads\<close> at the handle's id, and an assignment to it is handed to
  the simulator, recorded in \<open>writes\<close> in the order issued (when a written value becomes
  readable is the simulator's business).
\<close>

record world =
  objs :: "nat \<Rightarrow> pyobj"
  reads :: "nat \<Rightarrow> pyval"
  writes :: "(nat \<times> pyval) list"

function show_nat :: "nat \<Rightarrow> string" where
  "show_nat n =
     (if n < 10 then [char_of (48 + n)] else show_nat (n div 10) @ [char_of (48 + n mod 10)])"
  by pat_completeness auto
termination
  by (relation "measure id") auto

text \<open>\<^verbatim>\<open>str(v)\<close> as \<^verbatim>\<open>format\<close> uses it. The bus name is \<^verbatim>\<open>None\<close> or a string unless a
  signal attribute named \<^verbatim>\<open>_name\<close> replaced it; a handle prints as its name, and the
  texts of a dictionary and of a method are abbreviated.\<close>

fun py_str :: "pyval \<Rightarrow> string" where
  "py_str PNone = ''None''"
| "py_str (PStr s) = s"
| "py_str (PInt i) = (if i < 0 then CHR ''-'' # show_nat (nat (- i)) else show_nat (nat i))"
| "py_str (PBin ty bits) = bits"
| "py_str (PHdl h) = h_name h"
| "py_str (PDict kvs) = ''{...}''"
| "py_str (PMethod n) = ''<bound method '' @ n @ ''>''"

text \<open>The message of a strict mismatch:
  \<^verbatim>\<open>"Unable to <verb> {0}.{1} because {2} is missing attribute {3}".format(
  self._entity._name, self._name, type(obj).__qualname__, attr_name)\<close>.\<close>

definition missing_msg :: "string \<Rightarrow> pyobj \<Rightarrow> pyobj \<Rightarrow> string \<Rightarrow> error" where
  "missing_msg verb self obj attr_name =
     (case getattr self ''_entity'' of
        Inl e \<Rightarrow> e
      | Inr v \<Rightarrow>
          (case v of
             PHdl h \<Rightarrow>
               (case getattr self ''_name'' of
                  Inl e \<Rightarrow> e
                | Inr n \<Rightarrow>
                    AttributeError
                      (''Unable to '' @ verb @ '' '' @ h_name h @ ''.'' @ py_str n
                        @ '' because '' @ o_qualname obj @ '' is missing attribute ''
                        @ attr_name))
           | _ \<Rightarrow> AttributeError ''object has no attribute _name''))"

text \<open>\<^verbatim>\<open>self._signals.items()\<close>, taken once when a loop starts.\<close>

definition signals_items :: "pyobj \<Rightarrow> error + (string \<times> pyval) list" where
  "signals_items self =
     (case getattr self ''_signals'' of
        Inl e \<Rightarrow> Inl e
      | Inr d \<Rightarrow>
          (case d of
             PDict kvs \<Rightarrow> Inr kvs
           | _ \<Rightarrow> Inl (AttributeError ''object has no attribute items'')))"

text \<open>\<^verbatim>\<open>hdl.value\<close> and \<^verbatim>\<open>hdl.value = val\<close>. The dictionary only ever holds handles and
  \<^verbatim>\<open>None\<close>; \<^verbatim>\<open>None\<close> has no \<^verbatim>\<open>value\<close>.\<close>

definition read_value :: "pyval \<Rightarrow> world \<Rightarrow> error + pyval" where
  "read_value hdl w =
     (case hdl of
        PHdl h \<Rightarrow> Inr (reads w (h_id h))
      | _ \<Rightarrow> Inl (AttributeError ''object has no attribute value''))"

definition write_value :: "pyval \<Rightarrow> pyval \<Rightarrow> world \<Rightarrow> error + world" where
  "write_value hdl val w =
     (case hdl of
        PHdl h \<Rightarrow> Inr (w\<lparr>writes := writes w @ [(h_id h, val)]\<rparr>)
      | _ \<Rightarrow> Inl (AttributeError ''object has no attribute value''))"

text \<open>The loop of \<^verbatim>\<open>drive\<close>. An exception leaves the loop with the writes already
  issued in place: the result is the exception, if any, and the world.\<close>

fun drive_loop ::
  "nat \<Rightarrow> nat \<Rightarrow> bool \<Rightarrow> (string \<times> pyval) list \<Rightarrow> world \<Rightarrow> error option \<times> world" where
  "drive_loop slf obj strict [] w = (None, w)"
| "drive_loop slf obj strict ((attr_name, hdl) # rest) w =
     (if \<not> hasattr (objs w obj) attr_name then
        (if strict then
           (Some (missing_msg ''drive onto'' (objs w slf) (objs w obj) attr_name), w)
         else drive_loop slf obj strict rest w)
      else
        (case getattr (objs w obj) attr_name of
           Inl e \<Rightarrow> (Some e, w)
         | Inr val \<Rightarrow>
             (case write_value hdl val w of
                Inl e \<Rightarrow> (Some e, w)
              | Inr w' \<Rightarrow> drive_loop slf obj strict rest w')))"

definition drive :: "nat \<Rightarrow> nat \<Rightarrow> bool \<Rightarrow> world \<Rightarrow> error option \<times> world" where
  "drive slf obj strict w =
     (case signals_items (objs w slf) of
        Inl e \<Rightarrow> (Some e, w)
      | Inr items \<Rightarrow> drive_loop slf obj strict items w)"

text \<open>
  The assignment of one sampled signal:
  \<^verbatim>\<open>try: getattr(obj, attr_name).set_binstr(hdl.value.get_binstr())\<close>
  \<^verbatim>\<open>except AttributeError: setattr(obj, attr_name, hdl.value)\<close>.
  The first line works when the destination has \<^verbatim>\<open>set_binstr\<close> and the handle's value
  has \<^verbatim>\<open>get_binstr\<close>: the destination keeps its class and takes the bits. Every other
  case raises \<^verbatim>\<open>AttributeError\<close>, which the handler turns into the plain assignment; an
  \<^verbatim>\<open>AttributeError\<close> of that one leaves the method. \<^verbatim>\<open>set_binstr\<close> is taken to accept
  the bits it is given, and values are not shared between attributes.
\<close>

definition sample_fallback :: "nat \<Rightarrow> string \<Rightarrow> pyval \<Rightarrow> world \<Rightarrow> error + world" where
  "sample_fallback obj attr_name hdl w =
     (case read_value hdl w of
        Inl e \<Rightarrow> Inl e
      | Inr v \<Rightarrow> Inr (w\<lparr>objs := (objs w)(obj := setattr (objs w obj) attr_name v)\<rparr>))"

definition sample_assign :: "nat \<Rightarrow> string \<Rightarrow> pyval \<Rightarrow> world \<Rightarrow> error + world" where
  "sample_assign obj attr_name hdl w =
     (case getattr (objs w obj) attr_name of
        Inl e \<Rightarrow> sample_fallback obj attr_name hdl w
      | Inr dst \<Rightarrow>
          (case dst of
             PBin ty old \<Rightarrow>
               (case read_value hdl w of
                  Inl e \<Rightarrow> sample_fallback obj attr_name hdl w
                | Inr v \<Rightarrow>
                    (case v of
                       PBin ty' bits \<Rightarrow>
                         Inr (w\<lparr>objs := (objs w)
                                (obj := setattr (objs w obj) attr_name (PBin ty bits))\<rparr>)
                     | _ \<Rightarrow> sample_fallback obj attr_name hdl w))
           | _ \<Rightarrow> sample_fallback obj attr_name hdl w))"

fun sample_loop ::
  "nat \<Rightarrow> nat \<Rightarrow> bool \<Rightarrow> (string \<times> pyval) list \<Rightarrow> world \<Rightarrow> error option \<times> world" where
  "sample_loop slf obj strict [] w = (None, w)"
| "sample_loop slf obj strict ((attr_name, hdl) # rest) w =
     (if \<not> hasattr (objs w obj) attr_name then
        (if strict then
           (Some (missing_msg ''sample from'' (objs w slf) (objs w obj) attr_name), w)
         else sample_loop slf obj strict rest w)
      else
        (case sample_assign obj attr_name hdl w of
           Inl e \<Rightarrow> (Some e, w)
         | Inr w' \<Rightarrow> sample_loop slf obj strict rest w'))"

definition sample :: "nat \<Rightarrow> nat \<Rightarrow> bool \<Rightarrow> world \<Rightarrow> error option \<times> world" where
  "sample slf obj strict w =
     (case signals_items (objs w slf) of
        Inl e \<Rightarrow> (Some e, w)
      | Inr items \<Rightarrow> sample_loop slf obj strict items w)"

subsection \<open>The capture\<close>

text \<open>
  \<^verbatim>\<open>_Capture\<close> is a \<^verbatim>\<open>dict\<close> subclass, here the dictionary's items in order.
  \<^verbatim>\<open>__getattr__\<close> is only asked for a name that ordinary lookup does not find, so the
  names the class \<^verbatim>\<open>dict\<close> defines come first. \<^verbatim>\<open>__setattr__\<close> and \<^verbatim>\<open>__delattr__\<close> always
  raise; item assignment is the one \<^verbatim>\<open>dict\<close> provides.
\<close>

type_synonym capture_t = "(string \<times> pyval) list"

definition dict_members :: "string list" where
  "dict_members =
     [''clear'', ''copy'', ''fromkeys'', ''get'', ''items'', ''keys'', ''pop'', ''popitem'',
      ''setdefault'', ''update'', ''values'']"

definition Capture_getattr :: "capture_t \<Rightarrow> string \<Rightarrow> error + pyval" where
  "Capture_getattr cap name =
     (if name \<in> set dict_members then Inr (PMethod name)
      else
        (case map_of cap name of
           Some v \<Rightarrow> Inr v
         | None \<Rightarrow> Inl (RuntimeError (''Signal '' @ name @ '' not present in bus''))))"

definition Capture_setattr :: "capture_t \<Rightarrow> string \<Rightarrow> pyval \<Rightarrow> error + capture_t" where
  "Capture_setattr cap name v = Inl (RuntimeError ''Modifying a bus capture is not supported'')"

definition Capture_delattr :: "capture_t \<Rightarrow> string \<Rightarrow> error + capture_t" where
  "Capture_delattr cap name = Inl (RuntimeError ''Modifying a bus capture is not supported'')"

definition Capture_setitem :: "capture_t \<Rightarrow> string \<Rightarrow> pyval \<Rightarrow> error + capture_t" where
  "Capture_setitem cap key v = Inr (AList.update key v cap)"

fun capture_loop :: "(string \<times> pyval) list \<Rightarrow> capture_t \<Rightarrow> world \<Rightarrow> error + capture_t" where
  "capture_loop [] cap w = Inr cap"
| "capture_loop ((attr_name, hdl) # rest) cap w =
     (case read_value hdl w of
        Inl e \<Rightarrow> Inl e
      | Inr v \<Rightarrow> capture_loop rest (AList.update attr_name v cap) w)"

definition capture :: "nat \<Rightarrow> world \<Rightarrow> error + capture_t" where
  "capture slf w =
     (case signals_items (objs w slf) of
        Inl e \<Rightarrow> Inl e
      | Inr items \<Rightarrow> capture_loop items [] w)"

subsection \<open>The assignment operator\<close>

text \<open>\<^verbatim>\<open>__le__(self, value)\<close>: \<^verbatim>\<open>self.drive(value)\<close>, then the token
  \<^verbatim>\<open>_AssignmentResult(self, value)\<close> of the handle layer, which refers to both objects.\<close>

datatype token = AssignmentResult nat nat

definition Bus_le :: "nat \<Rightarrow> nat \<Rightarrow> world \<Rightarrow> (error + token) \<times> world" where
  "Bus_le slf val w =
     (case bound_method (objs w slf) ''drive'' of
        Inl e \<Rightarrow> (Inl e, w)
      | Inr _ \<Rightarrow>
          (case drive slf val False w of
             (Some e, w') \<Rightarrow> (Inl e, w')
           | (None, w') \<Rightarrow> (Inr (AssignmentResult slf val), w')))"

subsection \<open>Sequences of calls\<close>

text \<open>A call of one of the four operations on the Bus at address \<open>slf\<close>; \<open>run_op\<close> is
  the world the call leaves behind, whether it returned or raised.\<close>

datatype call = Drive nat bool | Sample nat bool | Capture | Assign nat

fun run_op :: "nat \<Rightarrow> call \<Rightarrow> world \<Rightarrow> world" where
  "run_op slf (Drive obj strict) w = snd (drive slf obj strict w)"
| "run_op slf (Sample obj strict) w = snd (sample slf obj strict w)"
| "run_op slf Capture w = w"
| "run_op slf (Assign val) w = snd (Bus_le slf val w)"

fun run_ops :: "nat \<Rightarrow> call list \<Rightarrow> world \<Rightarrow> world" where
  "run_ops slf [] w = w"
| "run_ops slf (c # cs) w = run_ops slf cs (run_op slf c w)"

section \<open>Notions used in the statements\<close>


definition bus_ok :: "handle \<Rightarrow> pyobj \<Rightarrow> bool" where
  "bus_ok e self \<longleftrightarrow>
     o_members self = Bus_members
     \<and> map_of (o_attrs self) ''_entity'' = Some (PHdl e)
     \<and> (\<exists>kvs. map_of (o_attrs self) ''_signals'' = Some (PDict kvs))
     \<and> map_of (o_attrs self) ''_add_signal'' = None
     \<and> map_of (o_attrs self) ''_caseInsensGetattr'' = None"


definition bind_signal :: "pyobj \<Rightarrow> string \<Rightarrow> pyval \<Rightarrow> pyobj" where
  "bind_signal self a v =
     (case map_of (o_attrs self) ''_signals'' of
        Some (PDict kvs) \<Rightarrow> setattr (setattr self a v) ''_signals'' (PDict (AList.update a v kvs))
      | _ \<Rightarrow> self)"

definition present :: "handle \<Rightarrow> string option \<Rightarrow> string \<Rightarrow> string \<times> string \<Rightarrow> bool" where
  "present e name sep p = (caseInsensGetattr e (compose_signame name sep (snd p)) \<noteq> Inr None)"

definition bound_consistent :: "pyobj \<Rightarrow> bool" where
  "bound_consistent self \<longleftrightarrow>
     (\<exists>kvs. map_of (o_attrs self) ''_signals'' = Some (PDict kvs)
        \<and> map_of kvs ''_signals'' = None
        \<and> (\<forall>a v. map_of kvs a = Some v \<longrightarrow>
              map_of (o_attrs self) a = Some v \<and> (\<exists>ho. v = hval ho)))"

text \<open>\<open>driven obj kvs\<close> are the assignments \<^verbatim>\<open>hdl.value = obj.a\<close>, in the order of the
  entries \<open>(a, hdl)\<close> of \<open>kvs\<close>, for the attributes \<open>a\<close> that \<open>obj\<close> has.\<close>

definition is_handle :: "pyval \<Rightarrow> bool" where
  "is_handle v = (case v of PHdl h \<Rightarrow> True | _ \<Rightarrow> False)"

fun driven :: "pyobj \<Rightarrow> (string \<times> pyval) list \<Rightarrow> (nat \<times> pyval) list" where
  "driven obj [] = []"
| "driven obj ((a, hdl) # rest) =
     (case hdl of
        PHdl h \<Rightarrow>
          (if hasattr obj a then
             (case getattr obj a of Inr v \<Rightarrow> [(h_id h, v)] | Inl e \<Rightarrow> [])
           else [])
      | _ \<Rightarrow> [])
     @ driven obj rest"

text \<open>\<open>sampled dst v\<close> is what an attribute holding \<open>dst\<close> holds after the value \<open>v\<close> of a
  handle was sampled into it: \<open>dst\<close> with the bits of \<open>v\<close> when both have a bit string,
  and \<open>v\<close> itself otherwise.\<close>

definition is_bin :: "pyval \<Rightarrow> bool" where
  "is_bin v = (case v of PBin ty bits \<Rightarrow> True | _ \<Rightarrow> False)"

definition sampled :: "pyval \<Rightarrow> pyval \<Rightarrow> pyval" where
  "sampled dst v =
     (case dst of
        PBin ty old \<Rightarrow> (case v of PBin ty' bits \<Rightarrow> PBin ty bits | _ \<Rightarrow> v)
      | _ \<Rightarrow> v)"

text \<open>\<open>reading w hdl\<close> is \<^verbatim>\<open>hdl.value\<close> for a handle; \<open>mentions msg name\<close> says that
  the message \<open>msg\<close> contains \<open>name\<close>.\<close>

definition reading :: "world \<Rightarrow> pyval \<Rightarrow> pyval" where
  "reading w hdl = (case hdl of PHdl h \<Rightarrow> reads w (h_id h) | _ \<Rightarrow> PNone)"

fun is_prefix :: "string \<Rightarrow> string \<Rightarrow> bool" where
  "is_prefix [] ys = True"
| "is_prefix (x # xs) [] = False"
| "is_prefix (x # xs) (y # ys) = (x = y \<and> is_prefix xs ys)"

fun mentions :: "string \<Rightarrow> string \<Rightarrow> bool" where
  "mentions [] name = (name = [])"
| "mentions (c # cs) name = (is_prefix name (c # cs) \<or> mentions cs name)"

section \<open>Example entities\<close>

text \<open>A design whose only signal is spelled \<^verbatim>\<open>vAlId\<close>, and which \<^verbatim>\<open>dir\<close> lists.\<close>

definition sig_vAlId :: handle where
  "sig_vAlId = Handle ''vAlId'' 1 [] [] []"

definition dut_mixed :: handle where
  "dut_mixed = Handle ''dut'' 0 [(''vAlId'', sig_vAlId)] [''clk'', ''vAlId''] []"

text \<open>A design without signals, and one with the two signals \<^verbatim>\<open>in_a\<close> and \<^verbatim>\<open>in_b\<close>; the
  Bus over the latter with name \<^verbatim>\<open>in\<close> and signals \<^verbatim>\<open>a\<close>, \<^verbatim>\<open>b\<close>.\<close>

definition dut_empty :: handle where
  "dut_empty = Handle ''dut'' 0 [] [] []"

definition sig_in_a :: handle where
  "sig_in_a = Handle ''in_a'' 1 [] [] []"

definition sig_in_b :: handle where
  "sig_in_b = Handle ''in_b'' 2 [] [] []"

definition dut_in :: handle where
  "dut_in = Handle ''dut'' 0 [(''in_a'', sig_in_a), (''in_b'', sig_in_b)] [''in_a'', ''in_b''] []"

definition bus_in :: pyobj where
  "bus_in =
     \<lparr>o_qualname = ''Bus'', o_members = Bus_members,
      o_attrs = [(''_entity'', PHdl dut_in), (''_name'', PStr ''in''),
                 (''_signals'', PDict [(''a'', PHdl sig_in_a), (''b'', PHdl sig_in_b)]),
                 (''a'', PHdl sig_in_a), (''b'', PHdl sig_in_b)]\<rparr>"

text \<open>A design with the two signals \<^verbatim>\<open>a\<close> and \<^verbatim>\<open>b\<close>.\<close>

definition sig_a :: handle where
  "sig_a = Handle ''a'' 1 [] [] []"

definition sig_b :: handle where
  "sig_b = Handle ''b'' 2 [] [] []"

definition dut_ab :: handle where
  "dut_ab = Handle ''dut'' 0 [(''a'', sig_a), (''b'', sig_b)] [''a'', ''b''] []"

text \<open>A design with signals named like members of the Bus: \<^verbatim>\<open>drive\<close> and \<^verbatim>\<open>_signals\<close>.\<close>

definition sig_drive :: handle where
  "sig_drive = Handle ''drive'' 1 [] [] []"

definition sig_signals :: handle where
  "sig_signals = Handle ''_signals'' 2 [] [] []"

definition dut_members :: handle where
  "dut_members =
     Handle ''dut'' 0 [(''drive'', sig_drive), (''_signals'', sig_signals)]
       [''_signals'', ''drive''] []"

definition bus_drive :: pyobj where
  "bus_drive =
     \<lparr>o_qualname = ''Bus'', o_members = Bus_members,
      o_attrs = [(''_entity'', PHdl dut_members), (''_name'', PNone),
                 (''_signals'', PDict [(''drive'', PHdl sig_drive)]),
                 (''drive'', PHdl sig_drive)]\<rparr>"

text \<open>A world with the Bus \<open>bus_in\<close> at address 0 and, at address 1, a transaction object
  that has the attribute \<^verbatim>\<open>a\<close> but not \<^verbatim>\<open>b\<close>; every signal reads as a binary value.\<close>

definition txn :: pyobj where
  "txn = \<lparr>o_qualname = ''Txn'', o_members = [], o_attrs = [(''a'', PInt 5)]\<rparr>"

definition world_in :: world where
  "world_in =
     \<lparr>objs = (\<lambda>_. bus_in)(1 := txn), reads = (\<lambda>_. PBin ''BinaryValue'' ''01''),
      writes = []\<rparr>"

text \<open>A transaction object whose attribute \<^verbatim>\<open>a\<close> is a value with a bit string, in a
  world whose signals read as binary values and in one whose signals read as integers.\<close>

definition txn_bin :: pyobj where
  "txn_bin = \<lparr>o_qualname = ''Txn'', o_members = [], o_attrs = [(''a'', PBin ''MyBits'' ''00'')]\<rparr>"

definition world_bin :: world where
  "world_bin =
     \<lparr>objs = (\<lambda>_. bus_in)(1 := txn_bin), reads = (\<lambda>_. PBin ''BinaryValue'' ''01''),
      writes = []\<rparr>"

definition world_int :: world where
  "world_int = \<lparr>objs = (\<lambda>_. bus_in)(1 := txn_bin), reads = (\<lambda>_. PInt 7), writes = []\<rparr>"

section \<open>Properties of name resolution\<close>

lemma scan_dir_find:
  "scan_dir obj attr ds =
     (case find (\<lambda>a. casefold a = casefold attr) ds of
        None \<Rightarrow> Inr None
      | Some a \<Rightarrow> (case handle_getattr obj a of Inl e \<Rightarrow> Inl e | Inr h \<Rightarrow> Inr (Some h)))"
  by (induction ds) simp_all

lemma hasattr_Some: "handle_hasattr obj a \<Longrightarrow> \<exists>h. map_of (h_attrs obj) a = Some h"
  by (simp add: handle_hasattr_def)

lemma caseInsens_eq:
  "caseInsensGetattr obj attr =
     (if handle_hasattr obj attr then Inr (map_of (h_attrs obj) attr)
      else if handle_hasattr obj (upper attr) then Inr (map_of (h_attrs obj) (upper attr))
      else if handle_hasattr obj (lower attr) then Inr (map_of (h_attrs obj) (lower attr))
      else scan_dir obj attr (h_dir obj))"
proof (cases "handle_hasattr obj attr")
  case True
  then obtain h where "map_of (h_attrs obj) attr = Some h" using hasattr_Some by blast
  with True show ?thesis by (simp add: caseInsensGetattr_def)
next
  case n1: False
  show ?thesis
  proof (cases "handle_hasattr obj (upper attr)")
    case True
    then obtain h where "map_of (h_attrs obj) (upper attr) = Some h" using hasattr_Some by blast
    with True n1 show ?thesis by (simp add: caseInsensGetattr_def)
  next
    case n2: False
    show ?thesis
    proof (cases "handle_hasattr obj (lower attr)")
      case True
      then obtain h where "map_of (h_attrs obj) (lower attr) = Some h"
        using hasattr_Some by blast
      with True n1 n2 show ?thesis by (simp add: caseInsensGetattr_def)
    next
      case False
      with n1 n2 show ?thesis by (simp add: caseInsensGetattr_def)
    qed
  qed
qed

lemma scan_dir_Some:
  "scan_dir obj attr ds = Inr (Some h) \<Longrightarrow>
     \<exists>a \<in> set ds. casefold a = casefold attr \<and> handle_getattr obj a = Inr h"
proof (induction ds)
  case Nil
  then show ?case by simp
next
  case (Cons d ds)
  show ?case
  proof (cases "casefold d = casefold attr")
    case True
    with Cons.prems have "handle_getattr obj d = Inr h"
      by (simp split: sum.splits)
    with True show ?thesis by auto
  next
    case False
    with Cons.prems have "scan_dir obj attr ds = Inr (Some h)" by simp
    with Cons.IH show ?thesis by auto
  qed
qed

text \<open>
  Claim C4. Case-insensitive lookup returns the attribute of the exact name when there
  is one; else that of the upper-cased name; else that of the lower-cased name; and
  only when all three are missing does it scan \<^verbatim>\<open>dir\<close>, taking the first listed name
  that is equal after case folding (nothing when there is none). A lookup that
  succeeds although none of the three spellings is an attribute found its handle
  through a listed name of the scan.
\<close>

theorem caseInsensGetattr_policy:
  "caseInsensGetattr obj attr =
     (if handle_hasattr obj attr then Inr (map_of (h_attrs obj) attr)
      else if handle_hasattr obj (upper attr) then Inr (map_of (h_attrs obj) (upper attr))
      else if handle_hasattr obj (lower attr) then Inr (map_of (h_attrs obj) (lower attr))
      else (case find (\<lambda>a. casefold a = casefold attr) (h_dir obj) of
              None \<Rightarrow> Inr None
            | Some a \<Rightarrow>
                (case handle_getattr obj a of Inl e \<Rightarrow> Inl e | Inr h \<Rightarrow> Inr (Some h))))
    \<and> (caseInsensGetattr obj attr = Inr (Some h) \<and> \<not> handle_hasattr obj attr
         \<and> \<not> handle_hasattr obj (upper attr) \<and> \<not> handle_hasattr obj (lower attr)
       \<longrightarrow> (\<exists>a \<in> set (h_dir obj). casefold a = casefold attr \<and> handle_getattr obj a = Inr h))"
proof (rule conjI)
  show "caseInsensGetattr obj attr =
     (if handle_hasattr obj attr then Inr (map_of (h_attrs obj) attr)
      else if handle_hasattr obj (upper attr) then Inr (map_of (h_attrs obj) (upper attr))
      else if handle_hasattr obj (lower attr) then Inr (map_of (h_attrs obj) (lower attr))
      else (case find (\<lambda>a. casefold a = casefold attr) (h_dir obj) of
              None \<Rightarrow> Inr None
            | Some a \<Rightarrow>
                (case handle_getattr obj a of Inl e \<Rightarrow> Inl e | Inr h \<Rightarrow> Inr (Some h))))"
    unfolding caseInsens_eq scan_dir_find ..
next
  show "caseInsensGetattr obj attr = Inr (Some h) \<and> \<not> handle_hasattr obj attr
         \<and> \<not> handle_hasattr obj (upper attr) \<and> \<not> handle_hasattr obj (lower attr)
       \<longrightarrow> (\<exists>a \<in> set (h_dir obj). casefold a = casefold attr \<and> handle_getattr obj a = Inr h)"
  proof
    assume "caseInsensGetattr obj attr = Inr (Some h) \<and> \<not> handle_hasattr obj attr
         \<and> \<not> handle_hasattr obj (upper attr) \<and> \<not> handle_hasattr obj (lower attr)"
    then have "caseInsensGetattr obj attr = Inr (Some h)" "\<not> handle_hasattr obj attr"
      "\<not> handle_hasattr obj (upper attr)" "\<not> handle_hasattr obj (lower attr)"
      by blast+
    then have "scan_dir obj attr (h_dir obj) = Inr (Some h)"
      by (simp add: caseInsens_eq)
    then show "\<exists>a \<in> set (h_dir obj). casefold a = casefold attr \<and> handle_getattr obj a = Inr h"
      by (rule scan_dir_Some)
  qed
qed

theorem caseInsensGetattr_policy_witness:
  "caseInsensGetattr dut_mixed ''Valid'' = Inr (Some sig_vAlId)
   \<and> \<not> handle_hasattr dut_mixed ''Valid''
   \<and> \<not> handle_hasattr dut_mixed (upper ''Valid'')
   \<and> \<not> handle_hasattr dut_mixed (lower ''Valid'')
   \<and> (\<exists>a \<in> set (h_dir dut_mixed).
         casefold a = casefold ''Valid'' \<and> handle_getattr dut_mixed a = Inr sig_vAlId)"
proof -
  have r: "caseInsensGetattr dut_mixed ''Valid'' = Inr (Some sig_vAlId)"
    by code_simp
  have n: "\<not> handle_hasattr dut_mixed ''Valid''" "\<not> handle_hasattr dut_mixed (upper ''Valid'')"
    "\<not> handle_hasattr dut_mixed (lower ''Valid'')"
    by code_simp+
  from r n caseInsensGetattr_policy [of dut_mixed "''Valid''" sig_vAlId]
  show ?thesis by blast
qed

section \<open>Properties of construction\<close>







lemma hval_not_dict: "hval ho \<noteq> PDict kvs"
  by (cases ho) (simp_all add: hval_def)

lemma store_signal_bind:
  assumes "map_of (o_attrs self) ''_signals'' = Some (PDict kvs)" "a \<noteq> ''_signals''"
  shows "store_signal (setattr self a v) a = Inr (bind_signal self a v)"
  using assms
  by (simp add: store_signal_def getattr_def setattr_def bind_signal_def update_conv')


lemma bind_signal_attrs:
  assumes "map_of (o_attrs self) ''_signals'' = Some (PDict kvs)"
  shows "map_of (o_attrs (bind_signal self a v)) =
           ((map_of (o_attrs self))(a \<mapsto> v))(''_signals'' \<mapsto> PDict (AList.update a v kvs))"
  using assms by (simp add: bind_signal_def setattr_def update_conv')




lemma bus_ok_items: "bus_ok e self \<Longrightarrow> \<exists>kvs. signals_items self = Inr kvs"
  by (auto simp: bus_ok_def signals_items_def getattr_def)









lemma sample_fallback_frame:
  "sample_fallback obj b hdl w = Inr w' \<Longrightarrow> a \<noteq> b \<Longrightarrow>
     map_of (o_attrs (objs w' q)) a = map_of (o_attrs (objs w q)) a"
  by (auto simp: sample_fallback_def setattr_def update_conv' split: sum.splits)

lemma sample_assign_frame:
  "sample_assign obj b hdl w = Inr w' \<Longrightarrow> a \<noteq> b \<Longrightarrow>
     map_of (o_attrs (objs w' q)) a = map_of (o_attrs (objs w q)) a"
  by (auto simp: sample_assign_def setattr_def update_conv' dest: sample_fallback_frame
        split: sum.splits pyval.splits)

lemma sample_loop_frame:
  "a \<notin> fst ` set items \<Longrightarrow>
     map_of (o_attrs (objs (snd (sample_loop slf obj strict items w)) q)) a
       = map_of (o_attrs (objs w q)) a"
proof (induction items arbitrary: w)
  case Nil
  then show ?case by simp
next
  case (Cons p items)
  obtain b hdl where p: "p = (b, hdl)" by (cases p)
  from Cons.prems p have ab: "a \<noteq> b" and rest: "a \<notin> fst ` set items" by auto
  show ?case
  proof (cases "sample_assign obj b hdl w")
    case (Inl x)
    then show ?thesis using Cons.IH [OF rest] by (auto simp: p)
  next
    case (Inr w1)
    from sample_assign_frame [OF Inr ab]
    have "map_of (o_attrs (objs w1 q)) a = map_of (o_attrs (objs w q)) a" .
    with Inr Cons.IH [OF rest] show ?thesis by (auto simp: p)
  qed
qed



section \<open>Missing signals\<close>

text \<open>
  Claim C1. A mandatory signal that the entity does not have: with
  \<^verbatim>\<open>case_insensitive=True\<close> (the default) the lookup yields \<^verbatim>\<open>None\<close>, which is bound like a
  handle, and the constructor returns a Bus; only \<^verbatim>\<open>case_insensitive=False\<close> raises the
  \<^verbatim>\<open>AttributeError\<close> naming the composed signal name.
\<close>

theorem missing_mandatory_signal_bound_to_None:
  "Bus_init dut_empty None (SigList [''clk'']) (SigList []) ''_'' True None =
     Inr \<lparr>o_qualname = ''Bus'', o_members = Bus_members,
          o_attrs = [(''_entity'', PHdl dut_empty), (''_name'', PNone),
                     (''_signals'', PDict [(''clk'', PNone)]), (''clk'', PNone)]\<rparr>
   \<and> Bus_init dut_empty None (SigList [''clk'']) (SigList []) ''_'' False None =
     Inl (AttributeError ''dut contains no object named clk'')"
  by code_simp

section \<open>Binding of composed names\<close>

lemma update_append_new: "a \<notin> fst ` set kvs \<Longrightarrow> AList.update a v kvs = kvs @ [(a, v)]"
  by (induction kvs) auto








lemma build_list_distinct:
  "distinct (map fst d0) \<Longrightarrow>
     distinct (map fst (foldl (\<lambda>d sig. AList.update sig sig d) d0 sigs))"
  by (induction sigs arbitrary: d0) (simp_all add: distinct_update)


lemma map_of_keyed:
  "distinct (map fst xs) \<Longrightarrow> p \<in> set xs \<Longrightarrow>
     map_of (map (\<lambda>p. (fst p, g p)) xs) (fst p) = Some (g p)"
proof (induction xs)
  case Nil
  then show ?case by simp
next
  case (Cons x xs)
  show ?case
  proof (cases "p = x")
    case True
    then show ?thesis by simp
  next
    case False
    with Cons.prems have px: "p \<in> set xs" and d: "distinct (map fst xs)"
      and n: "fst x \<notin> fst ` set xs" by auto
    from px have "fst p \<in> fst ` set xs" by (rule imageI)
    with n have "fst p \<noteq> fst x" by metis
    with Cons.IH [OF d px] show ?thesis by simp
  qed
qed



lemma nameless_bus_example:
  "Bus_init dut_ab None (SigList [''a'', ''b'']) (SigList []) ''_'' True None =
     Inr \<lparr>o_qualname = ''Bus'', o_members = Bus_members,
          o_attrs = [(''_entity'', PHdl dut_ab), (''_name'', PNone),
                     (''_signals'', PDict [(''a'', PHdl sig_a), (''b'', PHdl sig_b)]),
                     (''a'', PHdl sig_a), (''b'', PHdl sig_b)]\<rparr>"
  by code_simp

section \<open>Signals as attributes of the Bus\<close>

lemma add_signal_Inr:
  assumes "add_signal self a s idx ci = Inr self'"
  shows "\<exists>ho kvs. a \<noteq> ''_signals''
           \<and> map_of (o_attrs self) ''_signals'' = Some (PDict kvs)
           \<and> self' = bind_signal self a (hval ho)"
proof -
  from assms obtain ho where st: "store_signal (setattr self a (hval ho)) a = Inr self'"
    by (auto simp: add_signal_def split: sum.splits option.splits)
  have an: "a \<noteq> ''_signals''"
  proof
    assume "a = ''_signals''"
    with st show False
      by (cases ho) (simp_all add: store_signal_def getattr_def setattr_def update_conv' hval_def)
  qed
  with st obtain kvs where k: "map_of (o_attrs self) ''_signals'' = Some (PDict kvs)"
    by (auto simp: store_signal_def getattr_def setattr_def update_conv'
          split: option.splits pyval.splits if_splits)
  from store_signal_bind [OF k an] st have "self' = bind_signal self a (hval ho)" by simp
  with an k show ?thesis by blast
qed

lemma bound_consistent_bind:
  assumes c: "bound_consistent self" and an: "a \<noteq> ''_signals''"
  shows "bound_consistent (bind_signal self a (hval ho))"
proof -
  from c obtain kvs where k: "map_of (o_attrs self) ''_signals'' = Some (PDict kvs)"
    and ns: "map_of kvs ''_signals'' = None"
    and al: "\<forall>b v. map_of kvs b = Some v \<longrightarrow>
               map_of (o_attrs self) b = Some v \<and> (\<exists>ho. v = hval ho)"
    unfolding bound_consistent_def by blast
  let ?kvs = "AList.update a (hval ho) kvs"
  let ?self = "bind_signal self a (hval ho)"
  have k': "map_of (o_attrs ?self) ''_signals'' = Some (PDict ?kvs)"
    by (simp add: bind_signal_attrs [OF k])
  have ns': "map_of ?kvs ''_signals'' = None"
    using ns an by (simp add: update_conv')
  have al': "map_of (o_attrs ?self) b = Some v \<and> (\<exists>ho. v = hval ho)"
    if m: "map_of ?kvs b = Some v" for b v
  proof (cases "b = a")
    case True
    with m have "v = hval ho" by (simp add: update_conv')
    with True an show ?thesis by (auto simp: bind_signal_attrs [OF k])
  next
    case False
    with m have mb: "map_of kvs b = Some v" by (simp add: update_conv')
    with ns have "b \<noteq> ''_signals''" by auto
    with al mb False show ?thesis by (simp add: bind_signal_attrs [OF k])
  qed
  from k' ns' al' show ?thesis unfolding bound_consistent_def by blast
qed

lemma add_signal_consistent:
  "bound_consistent self \<Longrightarrow> add_signal self a s idx ci = Inr self' \<Longrightarrow> bound_consistent self'"
  using add_signal_Inr bound_consistent_bind by blast

lemma add_mandatory_consistent:
  "bound_consistent self \<Longrightarrow> add_mandatory self name sep idx ci ps = Inr self' \<Longrightarrow>
     bound_consistent self'"
proof (induction ps arbitrary: self)
  case Nil
  then show ?case by simp
next
  case (Cons p ps)
  obtain a s where p: "p = (a, s)" by (cases p)
  from Cons.prems(2) p obtain self1 where
    s1: "add_signal self a (compose_signame name sep s) idx ci = Inr self1"
    and r: "add_mandatory self1 name sep idx ci ps = Inr self'"
    by (auto split: sum.splits)
  from add_signal_consistent [OF Cons.prems(1) s1] have "bound_consistent self1" .
  from Cons.IH [OF this r] show ?case .
qed

lemma add_optional_consistent:
  "bound_consistent self \<Longrightarrow> add_optional self e name sep idx ci ps = Inr self' \<Longrightarrow>
     bound_consistent self'"
proof (induction ps arbitrary: self)
  case Nil
  then show ?case by simp
next
  case (Cons p ps)
  obtain a s where p: "p = (a, s)" by (cases p)
  from Cons.prems(2) p consider
    (skip) "add_optional self e name sep idx ci ps = Inr self'"
    | (add) self1 where "add_signal self a (compose_signame name sep s) idx ci = Inr self1"
        "add_optional self1 e name sep idx ci ps = Inr self'"
    by (auto split: sum.splits option.splits)
  then show ?case
  proof cases
    case skip
    from Cons.IH [OF Cons.prems(1) skip] show ?thesis .
  next
    case add
    from add_signal_consistent [OF Cons.prems(1) add(1)] have "bound_consistent self1" .
    from Cons.IH [OF this add(2)] show ?thesis .
  qed
qed

lemma new_Bus_consistent: "bound_consistent (new_Bus e name)"
  by (simp add: bound_consistent_def new_Bus_def)

lemma Bus_init_consistent:
  assumes "Bus_init e name signals optional_signals sep ci idx = Inr bus"
  shows "bound_consistent bus"
proof -
  from assms obtain self1 where
    a1: "add_mandatory (new_Bus e name) name sep idx ci (build_sig_attr_dict signals) = Inr self1"
    and a2: "add_optional self1 e name sep idx ci (build_sig_attr_dict optional_signals) = Inr bus"
    by (auto simp: Bus_init_def split: sum.splits)
  from add_mandatory_consistent [OF new_Bus_consistent a1] have "bound_consistent self1" .
  from add_optional_consistent [OF this a2] show ?thesis .
qed








section \<open>The resolved set after construction\<close>

lemma drive_loop_frame:
  "objs (snd (drive_loop slf obj strict items w)) = objs w
   \<and> reads (snd (drive_loop slf obj strict items w)) = reads w"
proof (induction items arbitrary: w)
  case Nil
  then show ?case by simp
next
  case (Cons p items)
  obtain a hdl where p: "p = (a, hdl)" by (cases p)
  have wv: "objs w' = objs w \<and> reads w' = reads w" if "write_value hdl v w = Inr w'" for v w'
    using that by (auto simp: write_value_def split: pyval.splits)
  show ?case
    using Cons.IH wv by (auto simp: p split: sum.splits)
qed

lemma drive_frame:
  "objs (snd (drive slf obj strict w)) = objs w \<and> reads (snd (drive slf obj strict w)) = reads w"
  using drive_loop_frame by (simp add: drive_def split: sum.splits)

lemma Bus_le_frame:
  "objs (snd (Bus_le slf val w)) = objs w \<and> reads (snd (Bus_le slf val w)) = reads w"
proof (cases "bound_method (objs w slf) ''drive''")
  case (Inl x)
  then show ?thesis by (simp add: Bus_le_def)
next
  case (Inr u)
  obtain r w' where d: "drive slf val False w = (r, w')" by (cases "drive slf val False w")
  with drive_frame [of slf val False w] have "objs w' = objs w \<and> reads w' = reads w" by simp
  with Inr d show ?thesis by (cases r) (simp_all add: Bus_le_def)
qed

lemma sample_signals_frame:
  assumes "map_of (o_attrs (objs w slf)) ''_signals'' = Some (PDict kvs)"
    and "map_of kvs ''_signals'' = None"
  shows "map_of (o_attrs (objs (snd (sample slf obj strict w)) q)) ''_signals''
           = map_of (o_attrs (objs w q)) ''_signals''"
proof -
  from assms(1) have i: "signals_items (objs w slf) = Inr kvs"
    by (simp add: signals_items_def getattr_def)
  from assms(2) have n: "''_signals'' \<notin> fst ` set kvs"
    by (simp add: map_of_eq_None_iff)
  from i sample_loop_frame [OF n] show ?thesis by (simp add: sample_def)
qed

lemma run_op_signals:
  assumes "map_of (o_attrs (objs w slf)) ''_signals'' = Some (PDict kvs)"
    and "map_of kvs ''_signals'' = None"
  shows "map_of (o_attrs (objs (run_op slf c w) slf)) ''_signals'' = Some (PDict kvs)"
proof (cases c)
  case (Drive obj strict)
  with assms(1) drive_frame [of slf obj strict w] show ?thesis by simp
next
  case (Sample obj strict)
  with assms(1) sample_signals_frame [OF assms] show ?thesis by simp
next
  case Capture
  with assms(1) show ?thesis by simp
next
  case (Assign val)
  with assms(1) Bus_le_frame [of slf val w] show ?thesis by simp
qed

lemma run_ops_signals:
  "map_of (o_attrs (objs w slf)) ''_signals'' = Some (PDict kvs) \<Longrightarrow>
   map_of kvs ''_signals'' = None \<Longrightarrow>
   map_of (o_attrs (objs (run_ops slf cs w) slf)) ''_signals'' = Some (PDict kvs)"
proof (induction cs arbitrary: w)
  case Nil
  then show ?case by simp
next
  case (Cons c cs)
  from run_op_signals [OF Cons.prems] Cons.IH Cons.prems(2) show ?case by simp
qed

text \<open>
  Claim C9. Whatever sequence of \<^verbatim>\<open>drive\<close>, \<^verbatim>\<open>sample\<close>, \<^verbatim>\<open>capture\<close> and operator
  assignments is run on a constructed Bus, with any objects (the Bus itself included)
  and whether the calls return or raise, \<^verbatim>\<open>_signals\<close> afterwards is the mapping the
  constructor left: the same attribute names, in the same order, with the same values.
\<close>

theorem resolved_set_never_modified:
  assumes "Bus_init e name signals optional_signals sep ci idx = Inr bus"
    and "objs w slf = bus"
  shows "signals_items (objs (run_ops slf cs w) slf) = signals_items bus"
proof -
  from Bus_init_consistent [OF assms(1)] obtain kvs where
    k: "map_of (o_attrs bus) ''_signals'' = Some (PDict kvs)"
    and ns: "map_of kvs ''_signals'' = None"
    unfolding bound_consistent_def by blast
  from k assms(2) have "map_of (o_attrs (objs w slf)) ''_signals'' = Some (PDict kvs)" by simp
  from run_ops_signals [OF this ns]
  have "map_of (o_attrs (objs (run_ops slf cs w) slf)) ''_signals'' = Some (PDict kvs)" .
  with k show ?thesis by (simp add: signals_items_def getattr_def)
qed

theorem resolved_set_never_modified_witness:
  "Bus_init dut_in (Some ''in'') (SigList [''a'', ''b'']) (SigList [''c'']) ''_'' False None
     = Inr bus_in
   \<and> objs world_in 0 = bus_in
   \<and> signals_items
       (objs (run_ops 0 [Drive 1 False, Sample 0 False, Capture, Assign 1, Sample 1 True] world_in) 0)
      = Inr [(''a'', PHdl sig_in_a), (''b'', PHdl sig_in_b)]
   \<and> getattr (objs (run_ops 0 [Drive 1 False, Sample 0 False] world_in) 0) ''a''
      = Inr (PBin ''BinaryValue'' ''01'')"
proof -
  have r: "Bus_init dut_in (Some ''in'') (SigList [''a'', ''b'']) (SigList [''c'']) ''_'' False None
     = Inr bus_in"
    by code_simp
  have o: "objs world_in 0 = bus_in"
    by (simp add: world_in_def)
  have i: "signals_items bus_in = Inr [(''a'', PHdl sig_in_a), (''b'', PHdl sig_in_b)]"
    by code_simp
  have g: "getattr (objs (run_ops 0 [Drive 1 False, Sample 0 False] world_in) 0) ''a''
      = Inr (PBin ''BinaryValue'' ''01'')"
    by code_simp
  have "signals_items
       (objs (run_ops 0 [Drive 1 False, Sample 0 False, Capture, Assign 1, Sample 1 True] world_in) 0)
      = signals_items bus_in"
    by (rule resolved_set_never_modified [OF r o])
  from trans [OF this i]
  have "signals_items
       (objs (run_ops 0 [Drive 1 False, Sample 0 False, Capture, Assign 1, Sample 1 True] world_in) 0)
      = Inr [(''a'', PHdl sig_in_a), (''b'', PHdl sig_in_b)]" .
  with r o g show ?thesis by (intro conjI) assumption+
qed

section \<open>Driving\<close>

lemma hasattr_getattr: "hasattr obj a \<Longrightarrow> \<exists>v. getattr obj a = Inr v"
  by (auto simp: hasattr_def getattr_def split: option.splits)

lemma drive_loop_nonstrict:
  "list_all (\<lambda>p. is_handle (snd p)) items \<Longrightarrow>
     drive_loop slf obj False items w
       = (None, w\<lparr>writes := writes w @ driven (objs w obj) items\<rparr>)"
proof (induction items arbitrary: w)
  case Nil
  then show ?case by simp
next
  case (Cons p items)
  obtain a hdl where p: "p = (a, hdl)" by (cases p)
  from Cons.prems p obtain h where h: "hdl = PHdl h" and r: "list_all (\<lambda>p. is_handle (snd p)) items"
    by (cases hdl) (auto simp: is_handle_def)
  show ?case
  proof (cases "hasattr (objs w obj) a")
    case False
    with Cons.IH [OF r, of w] show ?thesis by (simp add: p h)
  next
    case True
    then obtain v where v: "getattr (objs w obj) a = Inr v" using hasattr_getattr by blast
    let ?w = "w\<lparr>writes := writes w @ [(h_id h, v)]\<rparr>"
    have "drive_loop slf obj False (p # items) w = drive_loop slf obj False items ?w"
      using True v by (simp add: p h write_value_def)
    also have "\<dots> = (None, ?w\<lparr>writes := writes ?w @ driven (objs ?w obj) items\<rparr>)"
      by (rule Cons.IH [OF r])
    also have "\<dots> = (None, w\<lparr>writes := writes w @ driven (objs w obj) (p # items)\<rparr>)"
      using True v by (simp add: p h)
    finally show ?thesis .
  qed
qed

lemma drive_loop_strict_all:
  "list_all (\<lambda>p. is_handle (snd p)) items \<Longrightarrow> \<forall>p \<in> set items. hasattr (objs w obj) (fst p) \<Longrightarrow>
     drive_loop slf obj True items w
       = (None, w\<lparr>writes := writes w @ driven (objs w obj) items\<rparr>)"
proof (induction items arbitrary: w)
  case Nil
  then show ?case by simp
next
  case (Cons p items)
  obtain a hdl where p: "p = (a, hdl)" by (cases p)
  from Cons.prems p obtain h where h: "hdl = PHdl h" and r: "list_all (\<lambda>p. is_handle (snd p)) items"
    by (cases hdl) (auto simp: is_handle_def)
  from Cons.prems(2) p have True: "hasattr (objs w obj) a"
    and rest: "\<forall>p \<in> set items. hasattr (objs w obj) (fst p)" by auto
  then obtain v where v: "getattr (objs w obj) a = Inr v" using hasattr_getattr by blast
  let ?w = "w\<lparr>writes := writes w @ [(h_id h, v)]\<rparr>"
  have rest': "\<forall>p \<in> set items. hasattr (objs ?w obj) (fst p)" using rest by simp
  have "drive_loop slf obj True (p # items) w = drive_loop slf obj True items ?w"
    using True v by (simp add: p h write_value_def)
  also have "\<dots> = (None, ?w\<lparr>writes := writes ?w @ driven (objs ?w obj) items\<rparr>)"
    by (rule Cons.IH [OF r rest'])
  also have "\<dots> = (None, w\<lparr>writes := writes w @ driven (objs w obj) (p # items)\<rparr>)"
    using True v by (simp add: p h)
  finally show ?case .
qed

lemma drive_loop_strict_missing:
  "list_all (\<lambda>p. is_handle (snd p)) pre \<Longrightarrow> \<forall>p \<in> set pre. hasattr (objs w obj) (fst p) \<Longrightarrow>
   \<not> hasattr (objs w obj) a \<Longrightarrow>
     drive_loop slf obj True (pre @ (a, hdl) # post) w
       = (Some (missing_msg ''drive onto'' (objs w slf) (objs w obj) a),
          w\<lparr>writes := writes w @ driven (objs w obj) pre\<rparr>)"
proof (induction pre arbitrary: w)
  case Nil
  then show ?case by simp
next
  case (Cons p pre)
  obtain b hb where p: "p = (b, hb)" by (cases p)
  from Cons.prems(1) p obtain h where h: "hb = PHdl h" and r: "list_all (\<lambda>p. is_handle (snd p)) pre"
    by (cases hb) (auto simp: is_handle_def)
  from Cons.prems(2) p have True: "hasattr (objs w obj) b"
    and rest: "\<forall>p \<in> set pre. hasattr (objs w obj) (fst p)" by auto
  then obtain v where v: "getattr (objs w obj) b = Inr v" using hasattr_getattr by blast
  let ?w = "w\<lparr>writes := writes w @ [(h_id h, v)]\<rparr>"
  have rest': "\<forall>p \<in> set pre. hasattr (objs ?w obj) (fst p)" using rest by simp
  have na: "\<not> hasattr (objs ?w obj) a" using Cons.prems(3) by simp
  have "drive_loop slf obj True ((p # pre) @ (a, hdl) # post) w
          = drive_loop slf obj True (pre @ (a, hdl) # post) ?w"
    using True v by (simp add: p h write_value_def)
  also have "\<dots> = (Some (missing_msg ''drive onto'' (objs ?w slf) (objs ?w obj) a),
          ?w\<lparr>writes := writes ?w @ driven (objs ?w obj) pre\<rparr>)"
    using Cons.IH [OF r rest' na] by simp
  also have "\<dots> = (Some (missing_msg ''drive onto'' (objs w slf) (objs w obj) a),
          w\<lparr>writes := writes w @ driven (objs w obj) (p # pre)\<rparr>)"
    using True v by (simp add: p h)
  finally show ?case .
qed

lemma missing_msg_text:
  "getattr self ''_entity'' = Inr (PHdl ent) \<Longrightarrow> getattr self ''_name'' = Inr n \<Longrightarrow>
     missing_msg verb self obj a =
       AttributeError (''Unable to '' @ verb @ '' '' @ h_name ent @ ''.'' @ py_str n
                        @ '' because '' @ o_qualname obj @ '' is missing attribute '' @ a)"
  by (simp add: missing_msg_def)

lemma driven_mem:
  "(a, PHdl h) \<in> set kvs \<Longrightarrow> hasattr obj a \<Longrightarrow> getattr obj a = Inr v \<Longrightarrow>
     (h_id h, v) \<in> set (driven obj kvs)"
proof (induction kvs)
  case Nil
  then show ?case by simp
next
  case (Cons p kvs)
  obtain b hb where p: "p = (b, hb)" by (cases p)
  show ?case
  proof (cases "p = (a, PHdl h)")
    case True
    with Cons.prems show ?thesis by simp
  next
    case False
    with Cons.prems have "(a, PHdl h) \<in> set kvs" by simp
    from Cons.IH [OF this Cons.prems(2,3)] have "(h_id h, v) \<in> set (driven obj kvs)" .
    then have "(h_id h, v) \<in> set (driven obj ((b, hb) # kvs))"
      unfolding driven.simps set_append by (rule UnI2)
    then show ?thesis unfolding p .
  qed
qed

text \<open>
  Claim C5. Let the entries of \<^verbatim>\<open>_signals\<close> be handles. Then \<^verbatim>\<open>drive(obj)\<close> without
  \<^verbatim>\<open>strict\<close> returns normally, having assigned, entry by entry, the value of each
  attribute that \<open>obj\<close> has to the entry's handle, and skipped the others. With
  \<^verbatim>\<open>strict\<close> it does the same when \<open>obj\<close> has every attribute; otherwise it stops at the
  first entry whose attribute \<open>obj\<close> lacks with an \<^verbatim>\<open>AttributeError\<close> whose message names
  the entity, the bus, the class of \<open>obj\<close> and that attribute, the assignments before
  that entry made.
\<close>

theorem drive_writes_resolved_attributes:
  assumes i: "signals_items (objs w slf) = Inr kvs"
    and hs: "list_all (\<lambda>p. is_handle (snd p)) kvs"
  shows "drive slf obj False w = (None, w\<lparr>writes := writes w @ driven (objs w obj) kvs\<rparr>)
    \<and> ((\<forall>p \<in> set kvs. hasattr (objs w obj) (fst p)) \<longrightarrow>
          drive slf obj True w = (None, w\<lparr>writes := writes w @ driven (objs w obj) kvs\<rparr>))
    \<and> (\<forall>pre a hdl post ent n.
          kvs = pre @ (a, hdl) # post \<and> (\<forall>p \<in> set pre. hasattr (objs w obj) (fst p))
          \<and> \<not> hasattr (objs w obj) a
          \<and> getattr (objs w slf) ''_entity'' = Inr (PHdl ent)
          \<and> getattr (objs w slf) ''_name'' = Inr n
        \<longrightarrow> drive slf obj True w =
              (Some (AttributeError
                 (''Unable to drive onto '' @ h_name ent @ ''.'' @ py_str n @ '' because ''
                   @ o_qualname (objs w obj) @ '' is missing attribute '' @ a)),
               w\<lparr>writes := writes w @ driven (objs w obj) pre\<rparr>))
    \<and> (\<forall>a h v. (a, PHdl h) \<in> set kvs \<and> hasattr (objs w obj) a
          \<and> getattr (objs w obj) a = Inr v
        \<longrightarrow> (h_id h, v) \<in> set (driven (objs w obj) kvs))"
proof (intro conjI allI impI)
  show "drive slf obj False w = (None, w\<lparr>writes := writes w @ driven (objs w obj) kvs\<rparr>)"
    using i drive_loop_nonstrict [OF hs] by (simp add: drive_def)
next
  assume "\<forall>p \<in> set kvs. hasattr (objs w obj) (fst p)"
  from drive_loop_strict_all [OF hs this] i
  show "drive slf obj True w = (None, w\<lparr>writes := writes w @ driven (objs w obj) kvs\<rparr>)"
    by (simp add: drive_def)
next
  fix pre a hdl post ent n
  assume a: "kvs = pre @ (a, hdl) # post \<and> (\<forall>p \<in> set pre. hasattr (objs w obj) (fst p))
          \<and> \<not> hasattr (objs w obj) a
          \<and> getattr (objs w slf) ''_entity'' = Inr (PHdl ent)
          \<and> getattr (objs w slf) ''_name'' = Inr n"
  then have k: "kvs = pre @ (a, hdl) # post"
    and pr: "\<forall>p \<in> set pre. hasattr (objs w obj) (fst p)"
    and na: "\<not> hasattr (objs w obj) a"
    and e: "getattr (objs w slf) ''_entity'' = Inr (PHdl ent)"
    and n: "getattr (objs w slf) ''_name'' = Inr n"
    by blast+
  from hs k have hp: "list_all (\<lambda>p. is_handle (snd p)) pre" by simp
  from drive_loop_strict_missing [OF hp pr na, of slf hdl post] i k missing_msg_text [OF e n]
  show "drive slf obj True w =
              (Some (AttributeError
                 (''Unable to drive onto '' @ h_name ent @ ''.'' @ py_str n @ '' because ''
                   @ o_qualname (objs w obj) @ '' is missing attribute '' @ a)),
               w\<lparr>writes := writes w @ driven (objs w obj) pre\<rparr>)"
    by (simp add: drive_def)
next
  fix a h v
  assume "(a, PHdl h) \<in> set kvs \<and> hasattr (objs w obj) a \<and> getattr (objs w obj) a = Inr v"
  then have "(a, PHdl h) \<in> set kvs" "hasattr (objs w obj) a" "getattr (objs w obj) a = Inr v"
    by blast+
  then show "(h_id h, v) \<in> set (driven (objs w obj) kvs)" by (rule driven_mem)
qed

theorem drive_writes_resolved_attributes_witness:
  "signals_items (objs world_in 0) = Inr [(''a'', PHdl sig_in_a), (''b'', PHdl sig_in_b)]
   \<and> list_all (\<lambda>p. is_handle (snd p)) [(''a'', PHdl sig_in_a), (''b'', PHdl sig_in_b)]
   \<and> hasattr (objs world_in 1) ''a''
   \<and> \<not> hasattr (objs world_in 1) ''b''
   \<and> getattr (objs world_in 1) ''a'' = Inr (PInt 5)
   \<and> getattr (objs world_in 0) ''_entity'' = Inr (PHdl dut_in)
   \<and> getattr (objs world_in 0) ''_name'' = Inr (PStr ''in'')
   \<and> hasattr (objs world_in 0) ''a''
   \<and> hasattr (objs world_in 0) ''b''
   \<and> drive 0 1 False world_in = (None, world_in\<lparr>writes := [(1, PInt 5)]\<rparr>)
   \<and> drive 0 0 True world_in
        = (None, world_in\<lparr>writes := [(1, PHdl sig_in_a), (2, PHdl sig_in_b)]\<rparr>)
   \<and> drive 0 1 True world_in
        = (Some (AttributeError
                  ''Unable to drive onto dut.in because Txn is missing attribute b''),
           world_in\<lparr>writes := [(1, PInt 5)]\<rparr>)
   \<and> (1, PInt 5) \<in> set (driven (objs world_in 1) [(''a'', PHdl sig_in_a), (''b'', PHdl sig_in_b)])"
proof -
  let ?kvs = "[(''a'', PHdl sig_in_a), (''b'', PHdl sig_in_b)]"
  have i: "signals_items (objs world_in 0) = Inr ?kvs" by code_simp
  have hs: "list_all (\<lambda>p. is_handle (snd p)) ?kvs" by (simp add: is_handle_def)
  have ha: "hasattr (objs world_in 1) ''a''" and nb: "\<not> hasattr (objs world_in 1) ''b''"
    by code_simp+
  have ga: "getattr (objs world_in 1) ''a'' = Inr (PInt 5)" by code_simp
  have e: "getattr (objs world_in 0) ''_entity'' = Inr (PHdl dut_in)"
    and n: "getattr (objs world_in 0) ''_name'' = Inr (PStr ''in'')" by code_simp+
  have ba: "hasattr (objs world_in 0) ''a''" and bb: "hasattr (objs world_in 0) ''b''"
    by code_simp+
  have w0: "writes world_in = []" by (simp add: world_in_def)
  have d1: "driven (objs world_in 1) ?kvs = [(1, PInt 5)]"
    using ha nb ga by (simp add: sig_in_a_def)
  have d0: "driven (objs world_in 0) ?kvs = [(1, PHdl sig_in_a), (2, PHdl sig_in_b)]"
    by code_simp
  have dp: "driven (objs world_in 1) [(''a'', PHdl sig_in_a)] = [(1, PInt 5)]"
    using ha ga by (simp add: sig_in_a_def)
  have q: "o_qualname (objs world_in 1) = ''Txn''" "h_name dut_in = ''dut''"
    by (simp_all add: world_in_def txn_def dut_in_def)
  note t = drive_writes_resolved_attributes [OF i hs]
  from t [of 1, THEN conjunct1]
  have c1: "drive 0 1 False world_in = (None, world_in\<lparr>writes := [(1, PInt 5)]\<rparr>)"
    unfolding w0 d1 append_Nil .
  have all: "\<forall>p \<in> set ?kvs. hasattr (objs world_in 0) (fst p)" using ba bb by simp
  from t [of 0, THEN conjunct2, THEN conjunct1, THEN mp, OF all]
  have c2: "drive 0 0 True world_in
        = (None, world_in\<lparr>writes := [(1, PHdl sig_in_a), (2, PHdl sig_in_b)]\<rparr>)"
    unfolding w0 d0 append_Nil .
  have pre: "?kvs = [(''a'', PHdl sig_in_a)] @ (''b'', PHdl sig_in_b) # []
     \<and> (\<forall>p \<in> set [(''a'', PHdl sig_in_a)]. hasattr (objs world_in 1) (fst p))
     \<and> \<not> hasattr (objs world_in 1) ''b''
     \<and> getattr (objs world_in 0) ''_entity'' = Inr (PHdl dut_in)
     \<and> getattr (objs world_in 0) ''_name'' = Inr (PStr ''in'')"
    using ha nb e n by simp
  from t [of 1, THEN conjunct2, THEN conjunct2, THEN conjunct1, THEN spec, THEN spec,
      THEN spec, THEN spec, THEN spec, THEN spec, THEN mp, OF pre]
  have c3: "drive 0 1 True world_in
        = (Some (AttributeError
                  ''Unable to drive onto dut.in because Txn is missing attribute b''),
           world_in\<lparr>writes := [(1, PInt 5)]\<rparr>)"
    unfolding w0 dp q append_Nil by simp
  have c4: "(1, PInt 5) \<in> set (driven (objs world_in 1) ?kvs)" unfolding d1 by simp
  from i hs ha nb ga e n ba bb c1 c2 c3 c4 show ?thesis by (intro conjI) assumption+
qed

section \<open>Sampling\<close>

lemma sample_assign_eq:
  assumes "getattr (objs w obj) a = Inr dst"
  shows "sample_assign obj a (PHdl h) w =
     Inr (w\<lparr>objs := (objs w)(obj := setattr (objs w obj) a (sampled dst (reads w (h_id h))))\<rparr>)"
proof (cases dst)
  case (PBin ty old)
  show ?thesis
  proof (cases "reads w (h_id h)")
    case (PBin ty' bits)
    with assms \<open>dst = PBin ty old\<close> show ?thesis
      by (simp add: sample_assign_def read_value_def sampled_def)
  qed (use assms PBin in \<open>simp_all add: sample_assign_def sample_fallback_def read_value_def
        sampled_def\<close>)
qed (use assms in \<open>simp_all add: sample_assign_def sample_fallback_def read_value_def sampled_def\<close>)

lemma sample_assign_other:
  assumes "sample_assign obj b hdl w = Inr w'"
  shows "reads w' = reads w \<and> o_members (objs w' q) = o_members (objs w q)
         \<and> o_qualname (objs w' q) = o_qualname (objs w q)"
  using assms
  by (auto simp: sample_assign_def sample_fallback_def setattr_def
        split: sum.splits pyval.splits)

lemma getattr_cong:
  "map_of (o_attrs x) a = map_of (o_attrs y) a \<Longrightarrow> o_members x = o_members y \<Longrightarrow>
   o_qualname x = o_qualname y \<Longrightarrow> getattr x a = getattr y a"
  by (auto simp: getattr_def split: option.splits)

lemma hasattr_cong:
  "map_of (o_attrs x) a = map_of (o_attrs y) a \<Longrightarrow> o_members x = o_members y \<Longrightarrow>
   hasattr x a = hasattr y a"
  by (simp add: hasattr_def)

lemma getattr_setattr_same: "getattr (setattr x a v) a = Inr v"
  by (simp add: getattr_def setattr_def update_conv')

lemma sample_loop_nonstrict:
  "list_all (\<lambda>p. is_handle (snd p)) items \<Longrightarrow> distinct (map fst items) \<Longrightarrow>
     fst (sample_loop slf obj False items w) = None
     \<and> reads (snd (sample_loop slf obj False items w)) = reads w
     \<and> (\<forall>a h dst. (a, PHdl h) \<in> set items \<and> getattr (objs w obj) a = Inr dst
                    \<and> hasattr (objs w obj) a
          \<longrightarrow> getattr (objs (snd (sample_loop slf obj False items w)) obj) a
                = Inr (sampled dst (reads w (h_id h))))"
proof (induction items arbitrary: w)
  case Nil
  then show ?case by simp
next
  case (Cons p items)
  obtain b hb where p: "p = (b, hb)" by (cases p)
  from Cons.prems(1) p obtain hh where hh: "hb = PHdl hh"
    and r: "list_all (\<lambda>p. is_handle (snd p)) items"
    by (cases hb) (auto simp: is_handle_def)
  from Cons.prems(2) p have d: "distinct (map fst items)" and bn: "b \<notin> fst ` set items"
    by auto
  show ?case
  proof (cases "hasattr (objs w obj) b")
    case False
    have eq: "sample_loop slf obj False (p # items) w = sample_loop slf obj False items w"
      using False by (simp add: p)
    have "(a, PHdl h) \<in> set items"
      if "(a, PHdl h) \<in> set (p # items)" "hasattr (objs w obj) a" for a h
      using that False p by auto
    with Cons.IH [OF r d, of w] show ?thesis unfolding eq by blast
  next
    case True
    then obtain dstb where db: "getattr (objs w obj) b = Inr dstb"
      using hasattr_getattr by blast
    let ?v = "sampled dstb (reads w (h_id hh))"
    let ?w = "w\<lparr>objs := (objs w)(obj := setattr (objs w obj) b ?v)\<rparr>"
    have st: "sample_assign obj b (PHdl hh) w = Inr ?w" by (rule sample_assign_eq [OF db])
    have eq: "sample_loop slf obj False (p # items) w = sample_loop slf obj False items ?w"
      using True st by (simp add: p hh)
    note ih = Cons.IH [OF r d, of ?w]
    have rd: "reads ?w = reads w" by simp
    have c3: "getattr (objs (snd (sample_loop slf obj False items ?w)) obj) a
                = Inr (sampled dst (reads w (h_id h)))"
      if m: "(a, PHdl h) \<in> set (p # items)" and g: "getattr (objs w obj) a = Inr dst"
        and ha: "hasattr (objs w obj) a" for a h dst
    proof (cases "a = b")
      case True
      with m bn p hh have hd: "h = hh" by (auto simp: image_iff)
      from True g db have dd: "dst = dstb" by simp
      from True bn have "a \<notin> fst ` set items" by simp
      from sample_loop_frame [OF this, of slf obj False ?w obj] True
      have "map_of (o_attrs (objs (snd (sample_loop slf obj False items ?w)) obj)) b
              = Some ?v"
        by (simp add: setattr_def update_conv')
      then have "getattr (objs (snd (sample_loop slf obj False items ?w)) obj) b = Inr ?v"
        by (simp add: getattr_def)
      with True hd dd show ?thesis by simp
    next
      case False
      with m p have mi: "(a, PHdl h) \<in> set items" by auto
      from False have ma: "map_of (o_attrs (objs ?w obj)) a = map_of (o_attrs (objs w obj)) a"
        by (simp add: setattr_def update_conv')
      have mm: "o_members (objs ?w obj) = o_members (objs w obj)"
        "o_qualname (objs ?w obj) = o_qualname (objs w obj)"
        by (simp_all add: setattr_def)
      from getattr_cong [OF ma mm] g have g': "getattr (objs ?w obj) a = Inr dst" by simp
      from hasattr_cong [OF ma mm(1)] ha have ha': "hasattr (objs ?w obj) a" by simp
      from ih mi g' ha' rd show ?thesis by auto
    qed
    from ih rd c3 show ?thesis unfolding eq by auto
  qed
qed

text \<open>
  Claim C6, as the code has it. Let the entries of \<^verbatim>\<open>_signals\<close> be handles under distinct
  names. Then \<^verbatim>\<open>sample(obj)\<close> without \<^verbatim>\<open>strict\<close> returns normally, and every resolved
  attribute that \<open>obj\<close> has afterwards holds: its old value with the bits of the handle's
  value, so still of its own class, when the old value takes a bit string and the
  handle's value gives one; and the handle's value itself in every other case.
\<close>

theorem sample_prefers_binstr:
  assumes i: "signals_items (objs w slf) = Inr kvs"
    and hs: "list_all (\<lambda>p. is_handle (snd p)) kvs"
    and d: "distinct (map fst kvs)"
  shows "fst (sample slf obj False w) = None
    \<and> (\<forall>a h dst. (a, PHdl h) \<in> set kvs \<and> hasattr (objs w obj) a
                   \<and> getattr (objs w obj) a = Inr dst
         \<longrightarrow> getattr (objs (snd (sample slf obj False w)) obj) a
               = Inr (sampled dst (reads w (h_id h))))
    \<and> sampled (PBin ty old) (PBin ty' bits) = PBin ty bits
    \<and> (\<not> is_bin dst' \<or> \<not> is_bin v \<longrightarrow> sampled dst' v = v)"
proof -
  have e: "sample slf obj False w = sample_loop slf obj False kvs w"
    using i by (simp add: sample_def)
  note l = sample_loop_nonstrict [OF hs d, of slf obj w]
  from l have c1: "fst (sample slf obj False w) = None" unfolding e by blast
  from l have c2: "\<forall>a h dst. (a, PHdl h) \<in> set kvs \<and> hasattr (objs w obj) a
                   \<and> getattr (objs w obj) a = Inr dst
         \<longrightarrow> getattr (objs (snd (sample slf obj False w)) obj) a
               = Inr (sampled dst (reads w (h_id h)))"
    unfolding e by blast
  have c3: "sampled (PBin ty old) (PBin ty' bits) = PBin ty bits"
    by (simp add: sampled_def)
  have c4: "\<not> is_bin dst' \<or> \<not> is_bin v \<longrightarrow> sampled dst' v = v"
    by (cases dst'; cases v) (simp_all add: sampled_def is_bin_def)
  from c1 c2 c3 c4 show ?thesis by (intro conjI) assumption+
qed

theorem sample_prefers_binstr_witness:
  "signals_items (objs world_bin 0) = Inr [(''a'', PHdl sig_in_a), (''b'', PHdl sig_in_b)]
   \<and> list_all (\<lambda>p. is_handle (snd p)) [(''a'', PHdl sig_in_a), (''b'', PHdl sig_in_b)]
   \<and> distinct (map fst [(''a'', PHdl sig_in_a), (''b'', PHdl sig_in_b)])
   \<and> hasattr (objs world_bin 1) ''a''
   \<and> getattr (objs world_bin 1) ''a'' = Inr (PBin ''MyBits'' ''00'')
   \<and> fst (sample 0 1 False world_bin) = None
   \<and> getattr (objs (snd (sample 0 1 False world_bin)) 1) ''a'' = Inr (PBin ''MyBits'' ''01'')
   \<and> \<not> is_bin (PInt 7)
   \<and> sampled (PBin ''MyBits'' ''00'') (PInt 7) = PInt 7"
proof -
  let ?kvs = "[(''a'', PHdl sig_in_a), (''b'', PHdl sig_in_b)]"
  have i: "signals_items (objs world_bin 0) = Inr ?kvs" by code_simp
  have hs: "list_all (\<lambda>p. is_handle (snd p)) ?kvs" by (simp add: is_handle_def)
  have d: "distinct (map fst ?kvs)" by simp
  have ha: "hasattr (objs world_bin 1) ''a''" by code_simp
  have ga: "getattr (objs world_bin 1) ''a'' = Inr (PBin ''MyBits'' ''00'')" by code_simp
  have rd: "reads world_bin (h_id sig_in_a) = PBin ''BinaryValue'' ''01''"
    by (simp add: world_bin_def)
  have nb: "\<not> is_bin (PInt 7)" by (simp add: is_bin_def)
  note t = sample_prefers_binstr [OF i hs d]
  from t [of 1] have c1: "fst (sample 0 1 False world_bin) = None" by (rule conjunct1)
  have pre: "(''a'', PHdl sig_in_a) \<in> set ?kvs \<and> hasattr (objs world_bin 1) ''a''
     \<and> getattr (objs world_bin 1) ''a'' = Inr (PBin ''MyBits'' ''00'')"
    using ha ga by simp
  from t [of 1, THEN conjunct2, THEN conjunct1, THEN spec, THEN spec, THEN spec, THEN mp, OF pre]
  have "getattr (objs (snd (sample 0 1 False world_bin)) 1) ''a''
          = Inr (sampled (PBin ''MyBits'' ''00'') (PBin ''BinaryValue'' ''01''))"
    unfolding rd .
  also from t [of 1 "''MyBits''" "''00''" "''BinaryValue''" "''01''"]
  have "sampled (PBin ''MyBits'' ''00'') (PBin ''BinaryValue'' ''01'') = PBin ''MyBits'' ''01''"
    by blast
  finally have c2: "getattr (objs (snd (sample 0 1 False world_bin)) 1) ''a''
          = Inr (PBin ''MyBits'' ''01'')" .
  from t [of 1 _ _ _ _ "PBin ''MyBits'' ''00''" "PInt 7"] nb
  have c3: "sampled (PBin ''MyBits'' ''00'') (PInt 7) = PInt 7" by blast
  from i hs d ha ga c1 c2 nb c3 show ?thesis by (intro conjI) assumption+
qed

text \<open>A destination that takes a bit string does not keep its class when the handle's
  value has none: the integer read from the signal replaces it.\<close>

theorem sample_replaces_binstr_destination:
  "getattr (objs world_int 1) ''a'' = Inr (PBin ''MyBits'' ''00'')
   \<and> getattr (objs (snd (sample 0 1 False world_int)) 1) ''a'' = Inr (PInt 7)"
  by code_simp

section \<open>Capturing\<close>

lemma is_prefix_append: "is_prefix xs (xs @ ys)"
  by (induction xs) simp_all

lemma mentions_append: "mentions (pre @ name @ post) name"
proof (induction pre)
  case Nil
  show ?case
  proof (cases "name @ post")
    case Nil
    then show ?thesis by simp
  next
    case (Cons c cs)
    have "is_prefix name (name @ post)" by (rule is_prefix_append)
    with Cons show ?thesis by simp
  qed
next
  case (Cons c pre)
  then show ?case by simp
qed

lemma capture_loop_handles:
  "list_all (\<lambda>p. is_handle (snd p)) items \<Longrightarrow> distinct (map fst items) \<Longrightarrow>
   fst ` set items \<inter> fst ` set cap = {} \<Longrightarrow>
     capture_loop items cap w = Inr (cap @ map (\<lambda>p. (fst p, reading w (snd p))) items)"
proof (induction items arbitrary: cap)
  case Nil
  then show ?case by simp
next
  case (Cons p items)
  obtain a hdl where p: "p = (a, hdl)" by (cases p)
  from Cons.prems(1) p obtain h where h: "hdl = PHdl h"
    and r: "list_all (\<lambda>p. is_handle (snd p)) items"
    by (cases hdl) (auto simp: is_handle_def)
  from Cons.prems(2) p have d: "distinct (map fst items)" and an: "a \<notin> fst ` set items" by auto
  from Cons.prems(3) p have ac: "a \<notin> fst ` set cap" by auto
  let ?cap = "cap @ [(a, reads w (h_id h))]"
  from Cons.prems(3) an p have dj: "fst ` set items \<inter> fst ` set ?cap = {}" by auto
  have "capture_loop (p # items) cap w = capture_loop items ?cap w"
    using update_append_new [OF ac] by (simp add: p h read_value_def)
  also have "\<dots> = Inr (?cap @ map (\<lambda>p. (fst p, reading w (snd p))) items)"
    by (rule Cons.IH [OF r d dj])
  also have "\<dots> = Inr (cap @ map (\<lambda>p. (fst p, reading w (snd p))) (p # items))"
    by (simp add: p h reading_def)
  finally show ?case .
qed

text \<open>
  Claim C2, as the code has it. Let the entries of \<^verbatim>\<open>_signals\<close> be handles under distinct
  names. Then \<^verbatim>\<open>capture()\<close> returns the mapping from exactly these names, in order, to
  the values the handles read at that time. For a name that is none of the names of
  \<^verbatim>\<open>dict\<close> itself, attribute access returns the captured value when the name is present
  and raises a \<^verbatim>\<open>RuntimeError\<close> whose message contains the name when it is absent.
  Attribute assignment and attribute deletion always raise a \<^verbatim>\<open>RuntimeError\<close> with one
  fixed message.
\<close>

theorem capture_snapshot:
  assumes i: "signals_items (objs w slf) = Inr kvs"
    and hs: "list_all (\<lambda>p. is_handle (snd p)) kvs"
    and d: "distinct (map fst kvs)"
  shows "capture slf w = Inr (map (\<lambda>p. (fst p, reading w (snd p))) kvs)
    \<and> (\<forall>a h. (a, PHdl h) \<in> set kvs \<and> a \<notin> set dict_members
          \<longrightarrow> Capture_getattr (map (\<lambda>p. (fst p, reading w (snd p))) kvs) a
                = Inr (reads w (h_id h)))
    \<and> (\<forall>a. a \<notin> fst ` set kvs \<and> a \<notin> set dict_members
          \<longrightarrow> Capture_getattr (map (\<lambda>p. (fst p, reading w (snd p))) kvs) a
                = Inl (RuntimeError (''Signal '' @ a @ '' not present in bus''))
              \<and> mentions (''Signal '' @ a @ '' not present in bus'') a)
    \<and> Capture_setattr cap a' v = Inl (RuntimeError ''Modifying a bus capture is not supported'')
    \<and> Capture_delattr cap a' = Inl (RuntimeError ''Modifying a bus capture is not supported'')"
proof -
  let ?cap = "map (\<lambda>p. (fst p, reading w (snd p))) kvs"
  have dj: "fst ` set kvs \<inter> fst ` set ([] :: capture_t) = {}" by simp
  have c1: "capture slf w = Inr ?cap"
    using i capture_loop_handles [OF hs d dj, of w] by (simp add: capture_def)
  have c2: "\<forall>a h. (a, PHdl h) \<in> set kvs \<and> a \<notin> set dict_members
          \<longrightarrow> Capture_getattr ?cap a = Inr (reads w (h_id h))"
  proof (intro allI impI)
    fix a h
    assume "(a, PHdl h) \<in> set kvs \<and> a \<notin> set dict_members"
    then have m: "(a, PHdl h) \<in> set kvs" and n: "a \<notin> set dict_members" by blast+
    from map_of_keyed [OF d m, of "\<lambda>p. reading w (snd p)"]
    have "map_of ?cap a = Some (reads w (h_id h))" by (simp add: reading_def)
    with n show "Capture_getattr ?cap a = Inr (reads w (h_id h))"
      by (simp add: Capture_getattr_def)
  qed
  have c3: "\<forall>a. a \<notin> fst ` set kvs \<and> a \<notin> set dict_members
          \<longrightarrow> Capture_getattr ?cap a
                = Inl (RuntimeError (''Signal '' @ a @ '' not present in bus''))
              \<and> mentions (''Signal '' @ a @ '' not present in bus'') a"
  proof (intro allI impI)
    fix a
    assume "a \<notin> fst ` set kvs \<and> a \<notin> set dict_members"
    then have m: "a \<notin> fst ` set kvs" and n: "a \<notin> set dict_members" by blast+
    from m have "a \<notin> fst ` set ?cap" by (simp add: image_image)
    then have "map_of ?cap a = None" by (simp add: map_of_eq_None_iff)
    with n have g: "Capture_getattr ?cap a
                = Inl (RuntimeError (''Signal '' @ a @ '' not present in bus''))"
      by (simp add: Capture_getattr_def)
    have "mentions (''Signal '' @ a @ '' not present in bus'') a"
      by (rule mentions_append)
    with g show "Capture_getattr ?cap a
                = Inl (RuntimeError (''Signal '' @ a @ '' not present in bus''))
              \<and> mentions (''Signal '' @ a @ '' not present in bus'') a" by blast
  qed
  have c4: "Capture_setattr cap a' v
              = Inl (RuntimeError ''Modifying a bus capture is not supported'')"
    "Capture_delattr cap a' = Inl (RuntimeError ''Modifying a bus capture is not supported'')"
    by (simp_all add: Capture_setattr_def Capture_delattr_def)
  from c1 c2 c3 c4 show ?thesis by (intro conjI) assumption+
qed

theorem capture_snapshot_witness:
  "signals_items (objs world_in 0) = Inr [(''a'', PHdl sig_in_a), (''b'', PHdl sig_in_b)]
   \<and> list_all (\<lambda>p. is_handle (snd p)) [(''a'', PHdl sig_in_a), (''b'', PHdl sig_in_b)]
   \<and> distinct (map fst [(''a'', PHdl sig_in_a), (''b'', PHdl sig_in_b)])
   \<and> (''a'', PHdl sig_in_a) \<in> set [(''a'', PHdl sig_in_a), (''b'', PHdl sig_in_b)]
   \<and> ''a'' \<notin> set dict_members
   \<and> ''zz'' \<notin> fst ` set [(''a'', PHdl sig_in_a), (''b'', PHdl sig_in_b)]
   \<and> ''zz'' \<notin> set dict_members
   \<and> capture 0 world_in
        = Inr [(''a'', PBin ''BinaryValue'' ''01''), (''b'', PBin ''BinaryValue'' ''01'')]
   \<and> Capture_getattr [(''a'', PBin ''BinaryValue'' ''01''), (''b'', PBin ''BinaryValue'' ''01'')]
        ''a'' = Inr (PBin ''BinaryValue'' ''01'')
   \<and> Capture_getattr [(''a'', PBin ''BinaryValue'' ''01''), (''b'', PBin ''BinaryValue'' ''01'')]
        ''zz'' = Inl (RuntimeError ''Signal zz not present in bus'')"
proof -
  let ?kvs = "[(''a'', PHdl sig_in_a), (''b'', PHdl sig_in_b)]"
  let ?cap = "[(''a'', PBin ''BinaryValue'' ''01''), (''b'', PBin ''BinaryValue'' ''01'')]"
  have i: "signals_items (objs world_in 0) = Inr ?kvs" by code_simp
  have hs: "list_all (\<lambda>p. is_handle (snd p)) ?kvs" by (simp add: is_handle_def)
  have d: "distinct (map fst ?kvs)" by simp
  have ma: "(''a'', PHdl sig_in_a) \<in> set ?kvs" by simp
  have na: "''a'' \<notin> set dict_members" and nz: "''zz'' \<notin> set dict_members"
    by (simp_all add: dict_members_def)
  have kz: "''zz'' \<notin> fst ` set ?kvs" by simp
  have m: "map (\<lambda>p. (fst p, reading world_in (snd p))) ?kvs = ?cap"
    by (simp add: reading_def world_in_def)
  have rd: "reads world_in (h_id sig_in_a) = PBin ''BinaryValue'' ''01''"
    by (simp add: world_in_def)
  note t = capture_snapshot [OF i hs d]
  from t have c1: "capture 0 world_in = Inr ?cap" unfolding m by (rule conjunct1)
  from ma na have pa: "(''a'', PHdl sig_in_a) \<in> set ?kvs \<and> ''a'' \<notin> set dict_members" by blast
  from t [THEN conjunct2, THEN conjunct1, THEN spec, THEN spec, THEN mp, OF pa]
  have c2: "Capture_getattr ?cap ''a'' = Inr (PBin ''BinaryValue'' ''01'')"
    unfolding m rd .
  from kz nz have pz: "''zz'' \<notin> fst ` set ?kvs \<and> ''zz'' \<notin> set dict_members" by blast
  from t [THEN conjunct2, THEN conjunct2, THEN conjunct1, THEN spec, THEN mp, OF pz,
      THEN conjunct1]
  have c3: "Capture_getattr ?cap ''zz'' = Inl (RuntimeError ''Signal zz not present in bus'')"
    unfolding m by simp
  from i hs d ma na kz nz c1 c2 c3 show ?thesis by (intro conjI) assumption+
qed

text \<open>The message of a refused attribute assignment does not contain the name of the
  attribute.\<close>

theorem capture_setattr_message_without_name:
  "Capture_setattr [(''valid'', PInt 1)] ''valid'' (PInt 5)
     = Inl (RuntimeError ''Modifying a bus capture is not supported'')
   \<and> \<not> mentions ''Modifying a bus capture is not supported'' ''valid''"
  by code_simp

lemma capture_dict_name_example:
  "Capture_getattr [(''keys'', PInt 1)] ''keys'' = Inr (PMethod ''keys'')"
  by code_simp

section \<open>The assignment shorthand\<close>

text \<open>
  Claim C8. Where \<^verbatim>\<open>drive\<close> is still the method of the class, \<^verbatim>\<open>bus <= value\<close> is
  \<^verbatim>\<open>drive(value)\<close> without \<^verbatim>\<open>strict\<close>: it leaves the world that \<^verbatim>\<open>drive\<close> leaves and
  raises what \<^verbatim>\<open>drive\<close> raises; when \<^verbatim>\<open>drive\<close> returns, the result is the token
  \<^verbatim>\<open>_AssignmentResult(self, value)\<close> of the handle layer. The operator changes no object
  and no readable signal value itself: its whole effect are the assignments that
  \<^verbatim>\<open>drive\<close> hands to the handles.
\<close>

theorem le_is_drive:
  assumes m: "bound_method (objs w slf) ''drive'' = Inr ()"
  shows "Bus_le slf val w =
           ((case fst (drive slf val False w) of
               None \<Rightarrow> Inr (AssignmentResult slf val)
             | Some e \<Rightarrow> Inl e),
            snd (drive slf val False w))
    \<and> objs (snd (Bus_le slf val w)) = objs w
    \<and> reads (snd (Bus_le slf val w)) = reads w
    \<and> (\<forall>kvs. signals_items (objs w slf) = Inr kvs \<and> list_all (\<lambda>p. is_handle (snd p)) kvs
          \<longrightarrow> Bus_le slf val w =
                (Inr (AssignmentResult slf val),
                 w\<lparr>writes := writes w @ driven (objs w val) kvs\<rparr>))"
proof -
  obtain r w' where d: "drive slf val False w = (r, w')" by (cases "drive slf val False w")
  have c1: "Bus_le slf val w =
           ((case fst (drive slf val False w) of
               None \<Rightarrow> Inr (AssignmentResult slf val)
             | Some e \<Rightarrow> Inl e),
            snd (drive slf val False w))"
    using m d by (cases r) (simp_all add: Bus_le_def)
  have c2: "objs (snd (Bus_le slf val w)) = objs w" "reads (snd (Bus_le slf val w)) = reads w"
    using Bus_le_frame [of slf val w] by blast+
  have c3: "\<forall>kvs. signals_items (objs w slf) = Inr kvs \<and> list_all (\<lambda>p. is_handle (snd p)) kvs
          \<longrightarrow> Bus_le slf val w =
                (Inr (AssignmentResult slf val),
                 w\<lparr>writes := writes w @ driven (objs w val) kvs\<rparr>)"
  proof (intro allI impI)
    fix kvs
    assume "signals_items (objs w slf) = Inr kvs \<and> list_all (\<lambda>p. is_handle (snd p)) kvs"
    then have i: "signals_items (objs w slf) = Inr kvs"
      and hs: "list_all (\<lambda>p. is_handle (snd p)) kvs" by blast+
    have "drive slf val False w = (None, w\<lparr>writes := writes w @ driven (objs w val) kvs\<rparr>)"
      using i drive_loop_nonstrict [OF hs] by (simp add: drive_def)
    with c1 show "Bus_le slf val w =
                (Inr (AssignmentResult slf val),
                 w\<lparr>writes := writes w @ driven (objs w val) kvs\<rparr>)" by simp
  qed
  from c1 c2 c3 show ?thesis by (intro conjI) assumption+
qed

theorem le_is_drive_witness:
  "bound_method (objs world_in 0) ''drive'' = Inr ()
   \<and> signals_items (objs world_in 0) = Inr [(''a'', PHdl sig_in_a), (''b'', PHdl sig_in_b)]
   \<and> list_all (\<lambda>p. is_handle (snd p)) [(''a'', PHdl sig_in_a), (''b'', PHdl sig_in_b)]
   \<and> Bus_le 0 1 world_in = (Inr (AssignmentResult 0 1), world_in\<lparr>writes := [(1, PInt 5)]\<rparr>)"
proof -
  let ?kvs = "[(''a'', PHdl sig_in_a), (''b'', PHdl sig_in_b)]"
  have m: "bound_method (objs world_in 0) ''drive'' = Inr ()" by code_simp
  have i: "signals_items (objs world_in 0) = Inr ?kvs" by code_simp
  have hs: "list_all (\<lambda>p. is_handle (snd p)) ?kvs" by (simp add: is_handle_def)
  have w0: "writes world_in = []" by (simp add: world_in_def)
  have d1: "driven (objs world_in 1) ?kvs = [(1, PInt 5)]" by code_simp
  from i hs have pre: "signals_items (objs world_in 0) = Inr ?kvs
     \<and> list_all (\<lambda>p. is_handle (snd p)) ?kvs" by blast
  from le_is_drive [OF m, of 1, THEN conjunct2, THEN conjunct2, THEN conjunct2, THEN spec,
      THEN mp, OF pre]
  have c: "Bus_le 0 1 world_in = (Inr (AssignmentResult 0 1), world_in\<lparr>writes := [(1, PInt 5)]\<rparr>)"
    unfolding w0 d1 append_Nil .
  from m i hs c show ?thesis by (intro conjI) assumption+
qed

lemma le_shadowed_example:
  "fst (Bus_le 0 1 \<lparr>objs = (\<lambda>_. bus_drive), reads = (\<lambda>_. PNone), writes = []\<rparr>)
     = Inl (TypeError ''object is not callable'')"
  by code_simp

section \<open>Optional signals\<close>






end
